theory Spec2Isabelle
  imports Main "HOL-Library.AList"
begin

section \<open>Python values\<close>

text \<open>
  The configuration document, the keyword arguments of a method and the attributes of a
  container are dynamically typed Python values.  A mapping is an association list, so
  that insertion order is kept as Python dictionaries keep it; an image buffer or an
  annotation payload is some value of this type, and \<open>copy.deepcopy\<close> is the identity.
  Floating point numbers are left out.
\<close>

datatype pyval = PNone | PBool bool | PInt int | PStr string
  | PList "pyval list" | PTuple "pyval list" | PDict "(pyval \<times> pyval) list"

type_synonym pydict = "(pyval \<times> pyval) list"

text \<open>
  Python's \<open>==\<close>: two mappings are equal when they have the same keys with equal values,
  whatever the order of the keys (\<open>dict.__eq__\<close>, which is also what decides as soon as one
  side is a plain \<open>dict\<close>); sequences are compared position by position; \<open>True == 1\<close>.
\<close>

fun py_eq :: "pyval \<Rightarrow> pyval \<Rightarrow> bool" where
  "py_eq (PDict xs) (PDict ys) =
     (length xs = length ys \<and>
      list_all (\<lambda>kv. case map_of ys (fst kv) of None \<Rightarrow> False
                     | Some w \<Rightarrow> py_eq (snd kv) w) xs)"
| "py_eq (PList xs) (PList ys) = list_all2 py_eq xs ys"
| "py_eq (PTuple xs) (PTuple ys) = list_all2 py_eq xs ys"
| "py_eq (PBool a) (PInt i) = (i = (if a then 1 else 0))"
| "py_eq (PInt i) (PBool a) = (i = (if a then 1 else 0))"
| "py_eq a b = (a = b)"

text \<open>An exception: its class name, its message, and whether the class derives from
  \<open>Exception\<close> (\<open>KeyboardInterrupt\<close> and \<open>SystemExit\<close> do not).\<close>

datatype exn = Exn (exn_class: string) (exn_msg: string) (is_Exception: bool)

definition IndexError :: exn where
  "IndexError = Exn ''IndexError'' ''string index out of range'' True"

definition KeyError :: "string \<Rightarrow> exn" where
  "KeyError k = Exn ''KeyError'' k True"

definition NameError :: "string \<Rightarrow> exn" where
  "NameError n = Exn ''NameError'' (''name '' @ n @ '' is not defined'') True"

definition TypeError :: "string \<Rightarrow> exn" where
  "TypeError m = Exn ''TypeError'' m True"

definition AttributeError :: "string \<Rightarrow> exn" where
  "AttributeError m = Exn ''AttributeError'' m True"

definition ValueError :: "string \<Rightarrow> exn" where
  "ValueError m = Exn ''ValueError'' m True"

text \<open>\<open>xs[i]\<close>: positions \<open>0 .. len-1\<close>, or \<open>-len .. -1\<close> read from the end; any other
  position raises \<open>IndexError\<close>.\<close>

definition py_index :: "'a list \<Rightarrow> int \<Rightarrow> exn + 'a" where
  "py_index xs i =
     (if 0 \<le> i \<and> i < int (length xs) then Inr (xs ! nat i)
      else if - int (length xs) \<le> i \<and> i < 0 then Inr (xs ! nat (int (length xs) + i))
      else Inl IndexError)"

text \<open>The values that can be keys of a mapping.\<close>

fun hashable :: "pyval \<Rightarrow> bool" where
  "hashable (PList _) = False"
| "hashable (PDict _) = False"
| "hashable (PTuple xs) = list_all hashable xs"
| "hashable _ = True"

text \<open>
  \<open>dict(x)\<close>.  A mapping is copied.  Any other value is iterated, and each item must
  itself give exactly two elements when it is iterated, a key and a value: a list or a
  tuple gives its elements, a string its characters, a mapping its keys; \<open>None\<close>, a
  truth value and a number raise \<open>TypeError\<close>, an item of another length raises
  \<open>ValueError\<close>, a key that is not hashable raises \<open>TypeError\<close>.  A key given again (keys
  are compared by \<open>==\<close>) keeps its place and takes the new value.
\<close>

fun py_iter :: "pyval \<Rightarrow> pyval list option" where
  "py_iter (PList xs) = Some xs"
| "py_iter (PTuple xs) = Some xs"
| "py_iter (PStr s) = Some (map (\<lambda>c. PStr [c]) s)"
| "py_iter (PDict d) = Some (map fst d)"
| "py_iter _ = None"

fun py_setitem :: "pyval \<Rightarrow> pyval \<Rightarrow> pydict \<Rightarrow> pydict" where
  "py_setitem k v [] = [(k, v)]"
| "py_setitem k v (kw # d) =
     (if py_eq (fst kw) k then (fst kw, v) # d else kw # py_setitem k v d)"

fun dict_items :: "pyval list \<Rightarrow> pydict \<Rightarrow> exn + pydict" where
  "dict_items [] d = Inr d"
| "dict_items (x # xs) d =
     (case py_iter x of
        None \<Rightarrow>
          Inl (TypeError ''cannot convert dictionary update sequence element to a sequence'')
      | Some kv \<Rightarrow>
          if length kv \<noteq> 2
          then Inl (ValueError ''dictionary update sequence element has the wrong length'')
          else if \<not> hashable (kv ! 0) then Inl (TypeError ''unhashable type'')
          else dict_items xs (py_setitem (kv ! 0) (kv ! 1) d))"

definition py_dict :: "pyval \<Rightarrow> exn + pydict" where
  "py_dict v =
     (case v of
        PDict d \<Rightarrow> Inr d
      | _ \<Rightarrow> (case py_iter v of
                None \<Rightarrow> Inl (TypeError ''object is not iterable'')
              | Some xs \<Rightarrow> dict_items xs []))"


section \<open>settings.py\<close>

definition annotation_functions :: "(string \<times> string) list" where
  "annotation_functions =
    [(''write_comment'', ''comment''),
     (''detect_QRcode'', ''comment''),
     (''detect_contour'', ''contour''),
     (''edit_contour'', ''drawing''),
     (''set_landmark'', ''landmark''),
     (''detect_landmark'', ''landmark''),
     (''set_polyline'', ''line''),
     (''detect_skeleton'', ''line''),
     (''contour_to_mask'', ''mask''),
     (''create_mask'', ''mask''),
     (''detect_mask'', ''mask''),
     (''create_reference'', ''reference''),
     (''detect_reference'', ''reference''),
     (''compute_shape_features'', ''shape_features''),
     (''compute_texture_features'', ''texture_features'')]"

text \<open>\<open>list(set(_annotation_functions.values()))\<close>: the order of a Python set is not
  fixed; the list is only used as the keys of the counter.\<close>

definition annotation_types :: "string list" where
  "annotation_types = remdups (map snd annotation_functions)"

definition legacy_names :: "(string \<times> (string \<times> string) list) list" where
  "legacy_names =
    [(''preprocessing'',
        [(''enter_data'', ''write_comment''),
         (''comment'', ''write_comment''),
         (''detect_shape'', ''detect_mask'')]),
     (''segmentation'',
        [(''detect_contours'', ''detect_contour''),
         (''edit_contours'', ''edit_contour'')]),
     (''measurement'',
        [(''set_landmark'', ''set_landmark''),
         (''set_landmarks'', ''set_landmark''),
         (''landmark'', ''set_landmark''),
         (''landmarks'', ''set_landmark''),
         (''shape_features'', ''compute_shape_features''),
         (''texture_features'', ''compute_texture_features'')]),
     (''visualization'',
        [(''draw_landmarks'', ''draw_landmark''),
         (''draw_contours'', ''draw_contour'')]),
     (''export'', [])]"

definition ascii_lowercase :: string where
  "ascii_lowercase = ''abcdefghijklmnopqrstuvwxyz''"

section \<open>Pype._iterate: the annotation parameters of one method\<close>

text \<open>
  The section \<open>METHOD / ANNOTATION\<close> of the loop body (main.py, 1333-1381).  It gets the
  counter, the resolved method name and the method's arguments, and gives the counter,
  \<open>annotation_args\<close>, the arguments left for the operation, and \<open>method_args_updated\<close>
  when the entry of the updated document is rewritten.  Its blocks are: taking the
  \<open>ANNOTATION\<close> block out of the arguments, as \<open>dict(method_args["ANNOTATION"])\<close>, and
  the defaults of \<open>type\<close>, \<open>id\<close> and \<open>edit\<close>.
\<close>

definition annotation_block :: "pydict \<Rightarrow> exn + (pydict \<times> pydict)" where
  "annotation_block method_args =
     (case map_of method_args (PStr ''ANNOTATION'') of
        None \<Rightarrow> Inr ([], method_args)
      | Some v \<Rightarrow>
          (case py_dict v of
             Inl e \<Rightarrow> Inl e
           | Inr d \<Rightarrow> Inr (d, AList.delete (PStr ''ANNOTATION'') method_args)))"

definition default_type :: "string \<Rightarrow> pydict \<Rightarrow> pydict" where
  "default_type ty annotation_args =
     (if map_of annotation_args (PStr ''type'') = None
      then annotation_args @ [(PStr ''type'', PStr ty)] else annotation_args)"

definition default_id :: "int \<Rightarrow> pydict \<Rightarrow> exn + pydict" where
  "default_id c annotation_args =
     (if map_of annotation_args (PStr ''id'') = None
      then (case py_index ascii_lowercase c of
              Inl e \<Rightarrow> Inl e
            | Inr ch \<Rightarrow> Inr (annotation_args @ [(PStr ''id'', PStr [ch])]))
      else Inr annotation_args)"

definition default_edit :: "string \<Rightarrow> pydict \<Rightarrow> pydict" where
  "default_edit method_name annotation_args =
     (if map_of annotation_args (PStr ''edit'') = None
      then annotation_args @
        [(PStr ''edit'',
          if method_name \<in> set [''detect_contour'', ''detect_shape'',
               ''compute_shape_features'', ''compute_texture_features'', ''skeletonize'']
          then PStr ''overwrite'' else PBool False)]
      else annotation_args)"

definition annotation_params ::
  "(string \<times> int) list \<Rightarrow> string \<Rightarrow> pydict
     \<Rightarrow> exn + ((string \<times> int) list \<times> pydict \<times> pydict \<times> pydict option)" where
  "annotation_params counter method_name method_args =
    (case map_of annotation_functions method_name of
       None \<Rightarrow> Inr (counter, [], method_args, None)
     | Some ty \<Rightarrow>
        (case map_of counter ty of
           None \<Rightarrow> Inl (KeyError ty)
         | Some c \<Rightarrow>
            (case annotation_block method_args of
               Inl e \<Rightarrow> Inl e
             | Inr (args0, method_args1) \<Rightarrow>
                (case default_id (c + 1) (default_type ty args0) of
                   Inl e \<Rightarrow> Inl e
                 | Inr args2 \<Rightarrow>
                    Inr (AList.update ty (c + 1) counter,
                         default_edit method_name args2, method_args1,
                         Some ((PStr ''ANNOTATION'', PDict (default_edit method_name args2))
                               # method_args1))))))"

text \<open>\<open>dict.fromkeys(settings._annotation_types, -1)\<close>\<close>

definition fresh_counter :: "(string \<times> int) list" where
  "fresh_counter = map (\<lambda>t. (t, - 1)) annotation_types"

section \<open>The configuration document\<close>

text \<open>
  \<open>config["processing_steps"]\<close> is a list of steps.  A step is a bare string (skipped) or
  a mapping with one key, the step name, whose value is the list of methods or \<open>None\<close>.
  A method is a bare name or a mapping with one key, the method name, whose value is the
  argument mapping or \<open>None\<close>.
\<close>

datatype meth = MStr string | MDict string "pydict option"

datatype step = SStr string | SDict string "meth list option"

type_synonym config = "step list"

text \<open>\<open>==\<close> on documents, as \<open>py_eq\<close> on the values they stand for.\<close>

fun method_eq :: "meth \<Rightarrow> meth \<Rightarrow> bool" where
  "method_eq (MStr a) (MStr b) = (a = b)"
| "method_eq (MDict a None) (MDict b None) = (a = b)"
| "method_eq (MDict a (Some x)) (MDict b (Some y)) = (a = b \<and> py_eq (PDict x) (PDict y))"
| "method_eq _ _ = False"

fun step_eq :: "step \<Rightarrow> step \<Rightarrow> bool" where
  "step_eq (SStr a) (SStr b) = (a = b)"
| "step_eq (SDict a None) (SDict b None) = (a = b)"
| "step_eq (SDict a (Some x)) (SDict b (Some y)) = (a = b \<and> list_all2 method_eq x y)"
| "step_eq _ _ = False"

definition config_eq :: "config \<Rightarrow> config \<Rightarrow> bool" where
  "config_eq a b = list_all2 step_eq a b"

text \<open>\<open>config_updated["processing_steps"][step_idx][step_name][method_idx] = m\<close>.  The
  updated document is a deep copy of the document whose steps and methods are being
  enumerated, so both indices are in range.\<close>

definition set_method :: "nat \<Rightarrow> nat \<Rightarrow> meth \<Rightarrow> config \<Rightarrow> config" where
  "set_method step_idx method_idx m cfg =
     (if step_idx < length cfg then
        (case cfg ! step_idx of
           SDict n (Some ms) \<Rightarrow> cfg[step_idx := SDict n (Some (ms[method_idx := m]))]
         | _ \<Rightarrow> cfg)
      else cfg)"

section \<open>utils.py: Container\<close>

record Container =
  image_arr :: pyval
  image_copy :: pyval
  image_bin :: pyval
  image_gray :: pyval
  canvas :: pyval
  dirpath :: pyval
  save_suffix :: pyval
  annotations :: "(string \<times> pydict) list"
  reference_manual_mode :: "pyval option"
  df_contours :: "pyval option"
  reference_template_px_mm_ratio :: "pyval option"
  reference_template_image :: "pyval option"

text \<open>\<open>Container.__init__\<close>.  \<open>settings._annotation_function_dicts\<close> is not defined in
  settings.py; it is a parameter.  An attribute that \<open>__init__\<close> does not set is \<open>None\<close>
  (absent, for \<open>hasattr\<close>).\<close>

definition Container_init ::
  "(string \<times> pydict) list \<Rightarrow> pyval \<Rightarrow> pyval \<Rightarrow> pyval \<Rightarrow> Container" where
  "Container_init annotation_function_dicts img dp sfx =
     \<lparr>image_arr = img, image_copy = img, image_bin = PNone, image_gray = PNone,
      canvas = PNone, dirpath = dp, save_suffix = sfx,
      annotations = annotation_function_dicts,
      reference_manual_mode = None, df_contours = None,
      reference_template_px_mm_ratio = None, reference_template_image = None\<rparr>"

definition reset :: "Container \<Rightarrow> Container" where
  "reset c = c\<lparr>image_arr := image_copy c, image_bin := PNone, image_gray := PNone,
               canvas := PNone, reference_manual_mode := Some (PBool False),
               df_contours := None\<rparr>"

text \<open>
  The functions of \<open>phenopype.core\<close> are not part of the sources: \<open>core name\<close> is the
  function called \<open>name\<close> (as \<open>''preprocessing.blur''\<close>), which gets positional and keyword
  arguments and returns a value or raises.
\<close>

type_synonym operations = "string \<Rightarrow> pyval list \<Rightarrow> pydict \<Rightarrow> exn + pyval"

fun is_str :: "pyval \<Rightarrow> bool" where
  "is_str (PStr _) = True"
| "is_str _ = False"

text \<open>\<open>f(*pos, **kwargs)\<close>\<close>

definition call_op :: "operations \<Rightarrow> string \<Rightarrow> pyval list \<Rightarrow> pyval \<Rightarrow> exn + pyval" where
  "call_op core f pos kwargs =
     (case kwargs of
        PDict d \<Rightarrow> if list_all (\<lambda>kv. is_str (fst kv)) d then core f pos d
                   else Inl (TypeError ''keywords must be strings'')
      | _ \<Rightarrow> Inl (TypeError ''argument after ** must be a mapping''))"

text \<open>\<open>kwargs.update({key: v})\<close>\<close>

definition kwargs_update :: "string \<Rightarrow> pyval \<Rightarrow> pyval \<Rightarrow> exn + pyval" where
  "kwargs_update key v kwargs =
     (case kwargs of
        PDict d \<Rightarrow> Inr (PDict (AList.update (PStr key) v d))
      | _ \<Rightarrow> Inl (AttributeError ''object has no attribute update''))"

text \<open>\<open>self.annotations[kind][annotation_id] = v\<close>\<close>

definition store_annotation :: "string \<Rightarrow> pyval \<Rightarrow> pyval \<Rightarrow> Container \<Rightarrow> exn + Container" where
  "store_annotation kind annotation_id v c =
     (case map_of (annotations c) kind of
        None \<Rightarrow> Inl (KeyError kind)
      | Some d \<Rightarrow>
          Inr (c\<lparr>annotations :=
                   AList.update kind (AList.update annotation_id v d) (annotations c)\<rparr>))"

text \<open>
  \<open>Container.run(self, fun, annotation_id=None, kwargs={})\<close> (utils.py, 123-181).  The
  default of \<open>kwargs\<close> is one dictionary shared by all calls that leave \<open>kwargs\<close> out, and
  \<open>kwargs.update\<close> changes it in place: it is part of the state (\<open>dflt\<close>), and
  \<open>kwargs_arg = None\<close> stands for a call that leaves \<open>kwargs\<close> out.  The result is the
  exception raised, if any, with the container and the shared default as the call leaves
  them.
\<close>

definition Container_run ::
  "operations \<Rightarrow> Container \<Rightarrow> pydict \<Rightarrow> pyval \<Rightarrow> pyval \<Rightarrow> pyval option
     \<Rightarrow> exn option \<times> Container \<times> pydict" where
  "Container_run core c dflt fn annotation_id kwargs_arg =
    (let share = (\<lambda>k. case kwargs_arg of
                         None \<Rightarrow> (case k of PDict d \<Rightarrow> d | _ \<Rightarrow> dflt)
                       | Some _ \<Rightarrow> dflt);
         kwargs0 = (case kwargs_arg of None \<Rightarrow> PDict dflt | Some k \<Rightarrow> k)
     in
     case map_of (annotations c) ''masks'' of
       None \<Rightarrow> (Some (KeyError ''masks''), c, dflt)
     | Some masks \<Rightarrow>
        if \<not> hashable annotation_id then (Some (TypeError ''unhashable type''), c, dflt)
        else
        (case (case map_of masks annotation_id of
                 Some prev \<Rightarrow> kwargs_update ''previous_annotation'' prev kwargs0
               | None \<Rightarrow> Inr kwargs0) of
           Inl e \<Rightarrow> (Some e, c, dflt)
         | Inr kwargs \<Rightarrow>
            if fn = PStr ''blur'' then
              (case call_op core ''preprocessing.blur'' [image_arr c] kwargs of
                 Inl e \<Rightarrow> (Some e, c, share kwargs)
               | Inr v \<Rightarrow> (None, c\<lparr>image_arr := v\<rparr>, share kwargs))
            else if fn = PStr ''create_mask'' then
              (case call_op core ''preprocessing.create_mask'' [image_arr c] kwargs of
                 Inl e \<Rightarrow> (Some e, c, share kwargs)
               | Inr annotation \<Rightarrow>
                  (case store_annotation ''masks'' annotation_id annotation c of
                     Inl e \<Rightarrow> (Some e, c, share kwargs)
                   | Inr c1 \<Rightarrow> (None, c1, share kwargs)))
            else if fn = PStr ''detect_mask'' then
              (case call_op core ''preprocessing.detect_mask'' [image_arr c] kwargs of
                 Inl e \<Rightarrow> (Some e, c, share kwargs)
               | Inr annotation \<Rightarrow>
                  (case store_annotation ''masks'' annotation_id annotation c of
                     Inl e \<Rightarrow> (Some e, c, share kwargs)
                   | Inr c1 \<Rightarrow> (None, c1, share kwargs)))
            else if fn = PStr ''enter_data'' then
              (case call_op core ''preprocessing.enter_data'' [image_arr c] kwargs of
                 Inl e \<Rightarrow> (Some e, c, share kwargs)
               | Inr annotation \<Rightarrow>
                  (case store_annotation ''comments'' annotation_id annotation c of
                     Inl e \<Rightarrow> (Some e, c, share kwargs)
                   | Inr c1 \<Rightarrow> (None, c1, share kwargs)))
            else if fn = PStr ''detect_reference'' then
              (case (reference_template_px_mm_ratio c, reference_template_image c) of
                 (Some ratio, Some template) \<Rightarrow>
                   (case call_op core ''preprocessing.detect_reference''
                           [image_arr c, template, ratio] kwargs of
                      Inl e \<Rightarrow> (Some e, c, share kwargs)
                    | Inr annotation \<Rightarrow>
                       (case store_annotation ''masks'' annotation_id annotation c of
                          Inl e \<Rightarrow> (Some e, c, share kwargs)
                        | Inr c1 \<Rightarrow>
                           (case annotation of
                              PTuple xs \<Rightarrow>
                                (case py_index xs 1 of
                                   Inl e \<Rightarrow> (Some e, c1, share kwargs)
                                 | Inr x1 \<Rightarrow>
                                    (case store_annotation ''masks'' annotation_id x1 c1 of
                                       Inl e \<Rightarrow> (Some e, c1, share kwargs)
                                     | Inr c2 \<Rightarrow>
                                        (case store_annotation ''references'' annotation_id
                                                (xs ! 0) c2 of
                                           Inl e \<Rightarrow> (Some e, c2, share kwargs)
                                         | Inr c3 \<Rightarrow> (None, c3, share kwargs))))
                            | _ \<Rightarrow>
                                (case store_annotation ''references'' annotation_id
                                        annotation c1 of
                                   Inl e \<Rightarrow> (Some e, c1, share kwargs)
                                 | Inr c2 \<Rightarrow> (None, c2, share kwargs)))))
               | _ \<Rightarrow> (None, c, share kwargs))
            else if fn = PStr ''select_channel'' then
              (case call_op core ''preprocessing.select_channel'' [image_arr c] kwargs of
                 Inl e \<Rightarrow> (Some e, c, share kwargs)
               | Inr v \<Rightarrow> (None, c\<lparr>image_arr := v\<rparr>, share kwargs))
            else if fn = PStr ''threshold'' then
              (case (if 0 < length masks then kwargs_update ''masks'' (PDict masks) kwargs
                     else Inr kwargs) of
                 Inl e \<Rightarrow> (Some e, c, share kwargs)
               | Inr kwargs1 \<Rightarrow>
                  (case call_op core ''segmentation.threshold'' [image_arr c] kwargs1 of
                     Inl e \<Rightarrow> (Some e, c, share kwargs1)
                   | Inr v \<Rightarrow> (None, c\<lparr>image_arr := v, image_bin := v\<rparr>, share kwargs1)))
            else if fn = PStr ''watershed'' then
              (case call_op core ''segmentation.watershed'' [image_copy c, image_bin c] kwargs of
                 Inl e \<Rightarrow> (Some e, c, share kwargs)
               | Inr v \<Rightarrow> (None, c\<lparr>image_arr := v\<rparr>, share kwargs))
            else if fn = PStr ''morphology'' then
              (case call_op core ''segmentation.morphology'' [image_arr c] kwargs of
                 Inl e \<Rightarrow> (Some e, c, share kwargs)
               | Inr v \<Rightarrow> (None, c\<lparr>image_arr := v\<rparr>, share kwargs))
            else if fn = PStr ''detect_contours'' then
              (case call_op core ''segmentation.detect_contours'' [image_arr c] kwargs of
                 Inl e \<Rightarrow> (Some e, c, share kwargs)
               | Inr v \<Rightarrow>
                  (case store_annotation ''contours'' annotation_id v c of
                     Inl e \<Rightarrow> (Some e, c, share kwargs)
                   | Inr c1 \<Rightarrow> (None, c1, share kwargs)))
            else (None, c, share kwargs)))"

text \<open>
  A call site: positional arguments (after \<open>self\<close>) and keyword arguments.  Binding a call
  to the parameters \<open>fun\<close>, \<open>annotation_id\<close>, \<open>kwargs\<close> of \<open>Container.run\<close> raises
  \<open>TypeError\<close> for a keyword that is not a parameter, for too many positional arguments,
  for a parameter given twice and for a missing \<open>fun\<close>; the body does not run then.
\<close>

datatype call = Call (pos_args: "pyval list") (kw_args: "(string \<times> pyval) list")

definition run_params :: "string list" where
  "run_params = [''fun'', ''annotation_id'', ''kwargs'']"

definition Container_run_call ::
  "operations \<Rightarrow> call \<Rightarrow> Container \<Rightarrow> pydict \<Rightarrow> exn option \<times> Container \<times> pydict" where
  "Container_run_call core cl c dflt =
    (let pos = pos_args cl; kw = kw_args cl in
     if length run_params < length pos then
       (Some (TypeError ''run() takes from 2 to 4 positional arguments''), c, dflt)
     else
     (case filter (\<lambda>k. k \<notin> set run_params) (map fst kw) of
        k # _ \<Rightarrow>
          (Some (TypeError (''run() got an unexpected keyword argument '' @ k)), c, dflt)
      | [] \<Rightarrow>
         (case filter (\<lambda>k. k \<in> set (take (length pos) run_params)) (map fst kw) of
            k # _ \<Rightarrow>
              (Some (TypeError (''run() got multiple values for argument '' @ k)), c, dflt)
          | [] \<Rightarrow>
             (let bound = zip run_params pos @ kw in
              case map_of bound ''fun'' of
                None \<Rightarrow>
                  (Some (TypeError ''run() missing 1 required positional argument: fun''),
                   c, dflt)
              | Some fn \<Rightarrow>
                  Container_run core c dflt fn
                    (case map_of bound ''annotation_id'' of None \<Rightarrow> PNone | Some v \<Rightarrow> v)
                    (map_of bound ''kwargs'')))))"

section \<open>main.py: Pype\<close>

text \<open>What the engine acts on besides its own attributes: the container, the module
  \<open>_config\<close> (\<open>pype_restart\<close>, \<open>last_print_msg\<close>) and the shared default of
  \<open>Container.run\<close>.\<close>

record world =
  container :: Container
  pype_restart :: bool
  last_print_msg :: string
  run_defaults :: pydict

record flags =
  debug :: bool
  autosave :: bool
  feedback :: bool
  fix_names :: bool
  terminate :: bool
  visualize :: bool
  dry_run :: bool

text \<open>Lines written to standard output.  \<open>PError\<close> carries the text
  \<open>location + " - " + str(ex)\<close>.\<close>

datatype printed =
    PNewIteration | PStep string | PSelectCanvasAutoselect | PMethod string
  | PFixedMethodName | PNoFunction string string | PError string | PBreak
  | PUpdatingConfig | PFinished | PAutoshow | PAutoselectCanvas | PVisualisation string
  | PStillUpdating string | PTerminate

text \<open>\<open>self\<close>, with the local \<open>annotation_counter\<close> of \<open>_iterate\<close>, the lines printed and
  the documents written to \<open>config_path\<close> by \<open>_save_yaml\<close>.\<close>

record pype =
  flags :: flags
  config :: config
  config_updated :: config
  config_parsed_flattened :: "(string \<times> string list) list"
  log :: "exn list"
  world :: world
  annotation_counter :: "(string \<times> int) list"
  stdout :: "printed list"
  written :: "config list"

text \<open>
  What the engine calls and does not define: \<open>modules\<close> gives, for a name that \<open>eval\<close>
  resolves to a module of \<open>phenopype.core\<close>, the names for which \<open>hasattr\<close> holds;
  \<open>container_run\<close> is \<open>self.container.run\<close> at a call site; \<open>GUI\<close> is
  \<open>utils_lowlevel._GUI(canvas).flags.end_pype\<close>.
\<close>

record runtime =
  modules :: "(string \<times> string list) list"
  container_run :: "call \<Rightarrow> world \<Rightarrow> exn option \<times> world"
  GUI :: "pyval \<Rightarrow> exn + bool"

text \<open>\<open>self.container.run\<close> when the container is the \<open>Container\<close> of utils.py.\<close>

definition utils_run :: "operations \<Rightarrow> call \<Rightarrow> world \<Rightarrow> exn option \<times> world" where
  "utils_run core cl w =
     (case Container_run_call core cl (container w) (run_defaults w) of
        (r, c, d) \<Rightarrow> (r, w\<lparr>container := c, run_defaults := d\<rparr>))"

text \<open>How a loop body ends: it goes on with the next turn, it returns from \<open>_iterate\<close>,
  or it raises.\<close>

datatype 'a ctl = Next 'a | Return 'a | Raise exn 'a

fun ctl_state :: "'a ctl \<Rightarrow> 'a" where
  "ctl_state (Next s) = s"
| "ctl_state (Return s) = s"
| "ctl_state (Raise e s) = s"

fun method_name_args :: "meth \<Rightarrow> string \<times> pydict" where
  "method_name_args (MDict n (Some a)) = (n, a)"
| "method_name_args (MDict n None) = (n, [])"
| "method_name_args (MStr n) = (n, [])"

text \<open>
  \<open>METHOD / EXTRACTION AND CHECK\<close> (main.py, 1307-1326): the name the method goes on
  with, whether the entry of the updated document now is the very dictionary
  \<open>method_args\<close>, and the engine.
\<close>

definition check_method ::
  "runtime \<Rightarrow> nat \<Rightarrow> string \<Rightarrow> nat \<Rightarrow> string \<Rightarrow> pydict \<Rightarrow> pype
     \<Rightarrow> exn + (string \<times> bool \<times> pype)" where
  "check_method R step_idx step_name method_idx method_name method_args s =
    (case map_of (modules R) step_name of
       None \<Rightarrow> Inl (NameError step_name)
     | Some attrs \<Rightarrow>
        if method_name \<in> set attrs then
          Inr (method_name, False,
               s\<lparr>config_parsed_flattened :=
                    AList.update step_name
                      ((case map_of (config_parsed_flattened s) step_name of
                          None \<Rightarrow> [] | Some l \<Rightarrow> l) @ [method_name])
                      (config_parsed_flattened s)\<rparr>)
        else if fix_names (flags s) then
          (case map_of legacy_names step_name of
             None \<Rightarrow> Inl (KeyError step_name)
           | Some table \<Rightarrow>
              (case map_of table method_name of
                 Some method_name_updated \<Rightarrow>
                   Inr (method_name_updated, True,
                        s\<lparr>config_updated :=
                             set_method step_idx method_idx
                               (MDict method_name_updated (Some method_args))
                               (config_updated s),
                           stdout := stdout s @ [PFixedMethodName]\<rparr>)
               | None \<Rightarrow> Inr (method_name, False, s)))
        else
          Inr (method_name, False,
               s\<lparr>stdout := stdout s @ [PNoFunction step_name method_name]\<rparr>))"

text \<open>The keyword arguments of the call in \<open>METHOD / EXECUTE\<close>.\<close>

definition run_call :: "string \<Rightarrow> pydict \<Rightarrow> pydict \<Rightarrow> (string \<times> int) list \<Rightarrow> call" where
  "run_call method_name method_args annotation_args counter =
     Call [] [(''fun'', PStr method_name),
              (''fun_kwargs'', PDict method_args),
              (''annotation_kwargs'', PDict annotation_args),
              (''annotation_counter'', PDict (map (\<lambda>(t, n). (PStr t, PInt n)) counter))]"

text \<open>
  The \<open>try\<close> statement of \<open>METHOD / EXECUTE\<close> and the check for a restart after it
  (main.py, 1393-1421).  \<open>except Exception\<close> does not catch an exception whose class does
  not derive from \<open>Exception\<close>.
\<close>

definition invoke_method ::
  "runtime \<Rightarrow> string \<Rightarrow> string \<Rightarrow> pydict \<Rightarrow> pydict \<Rightarrow> pype \<Rightarrow> pype ctl" where
  "invoke_method R step_name method_name method_args annotation_args s =
    (case container_run R
            (run_call method_name method_args annotation_args (annotation_counter s))
            (world s) of
       (None, w) \<Rightarrow>
         (let s1 = s\<lparr>world := w\<lparr>last_print_msg := []\<rparr>\<rparr>
          in if pype_restart (world s1)
             then Return (s1\<lparr>stdout := stdout s1 @ [PBreak]\<rparr>) else Next s1)
     | (Some ex, w) \<Rightarrow>
         if \<not> is_Exception ex \<or> debug (flags s) then Raise ex (s\<lparr>world := w\<rparr>)
         else
          (let s1 = s\<lparr>world := w, log := log s @ [ex],
                     stdout := stdout s @
                       [PError (step_name @ ''.'' @ method_name @ '': '' @ exn_class ex
                                @ '' - '' @ exn_msg ex)]\<rparr>
           in if pype_restart (world s1)
              then Return (s1\<lparr>stdout := stdout s1 @ [PBreak]\<rparr>) else Next s1))"

text \<open>
  \<open>METHOD / EXECUTE\<close> (main.py, 1388-1421).  \<open>aliased\<close> says that the entry of the updated
  document is the dictionary \<open>method_args\<close> itself (a renamed method without annotation
  parameters), so that \<open>method_args["passive"] = True\<close> changes the entry too.  The
  operation is taken not to change the dictionaries it is passed.
\<close>

definition set_passive :: "bool \<Rightarrow> pydict \<Rightarrow> pydict" where
  "set_passive fb method_args =
     (if \<not> fb then AList.update (PStr ''passive'') (PBool True) method_args
      else method_args)"

definition execute_method ::
  "runtime \<Rightarrow> bool \<Rightarrow> bool \<Rightarrow> nat \<Rightarrow> string \<Rightarrow> nat \<Rightarrow> string \<Rightarrow> pydict \<Rightarrow> pydict
     \<Rightarrow> bool \<Rightarrow> pype \<Rightarrow> pype ctl" where
  "execute_method R exec fb step_idx step_name method_idx method_name method_args
       annotation_args aliased s =
    (if \<not> exec then Next s
     else
      invoke_method R step_name method_name (set_passive fb method_args) annotation_args
        (if aliased \<and> \<not> fb
         then s\<lparr>config_updated :=
                  set_method step_idx method_idx
                    (MDict method_name (Some (set_passive fb method_args)))
                    (config_updated s)\<rparr>
         else s))"

text \<open>The body of the loop over the methods of a step (main.py, 1285-1421).\<close>

definition do_method ::
  "runtime \<Rightarrow> bool \<Rightarrow> bool \<Rightarrow> nat \<Rightarrow> string \<Rightarrow> nat \<Rightarrow> meth \<Rightarrow> pype \<Rightarrow> pype ctl" where
  "do_method R exec fb step_idx step_name method_idx m s =
    (case method_name_args m of
       (method_name0, method_args0) \<Rightarrow>
        let s1 = (if exec then s\<lparr>stdout := stdout s @ [PMethod method_name0]\<rparr> else s) in
        (case check_method R step_idx step_name method_idx method_name0 method_args0 s1 of
           Inl e \<Rightarrow> Raise e s1
         | Inr (method_name, renamed, s2) \<Rightarrow>
            (case annotation_params (annotation_counter s2) method_name method_args0 of
               Inl e \<Rightarrow> Raise e s2
             | Inr (counter, annotation_args, method_args, updated) \<Rightarrow>
                execute_method R exec fb step_idx step_name method_idx method_name
                  method_args annotation_args (renamed \<and> updated = None)
                  (s2\<lparr>annotation_counter := counter,
                      config_updated :=
                        (case updated of
                           None \<Rightarrow> config_updated s2
                         | Some method_args_updated \<Rightarrow>
                             set_method step_idx method_idx
                               (MDict method_name (Some method_args_updated))
                               (config_updated s2))\<rparr>))))"

fun methods_loop ::
  "runtime \<Rightarrow> bool \<Rightarrow> bool \<Rightarrow> nat \<Rightarrow> string \<Rightarrow> nat \<Rightarrow> meth list \<Rightarrow> pype \<Rightarrow> pype ctl" where
  "methods_loop R exec fb step_idx step_name method_idx [] s = Next s"
| "methods_loop R exec fb step_idx step_name method_idx (m # ms) s =
     (case do_method R exec fb step_idx step_name method_idx m s of
        Next s1 \<Rightarrow> methods_loop R exec fb step_idx step_name (Suc method_idx) ms s1
      | Return s1 \<Rightarrow> Return s1
      | Raise e s1 \<Rightarrow> Raise e s1)"

text \<open>The body of the loop over the steps (main.py, 1248-1285).  The call that selects a
  canvas before a visualization step is outside the \<open>try\<close>.\<close>

definition do_step :: "runtime \<Rightarrow> bool \<Rightarrow> bool \<Rightarrow> nat \<Rightarrow> step \<Rightarrow> pype \<Rightarrow> pype ctl" where
  "do_step R exec fb step_idx st s =
    (case st of
       SStr _ \<Rightarrow> Next s
     | SDict step_name method_list \<Rightarrow>
        let s1 = s\<lparr>config_parsed_flattened :=
                     AList.update step_name [] (config_parsed_flattened s)\<rparr> in
        (case method_list of
           None \<Rightarrow> Next s1
         | Some ml \<Rightarrow>
            let s2 = (if exec then s1\<lparr>stdout := stdout s1 @ [PStep step_name]\<rparr> else s1) in
            if step_name = ''visualization'' \<and> exec
               \<and> canvas (container (world s2)) = PNone
               \<and> ''select_canvas'' \<notin> set (map (\<lambda>m. fst (method_name_args m)) ml)
            then
              (let s3 = s2\<lparr>stdout := stdout s2 @ [PSelectCanvasAutoselect]\<rparr> in
               case container_run R (Call [PStr ''select_canvas''] []) (world s3) of
                 (Some ex, w) \<Rightarrow> Raise ex (s3\<lparr>world := w\<rparr>)
               | (None, w) \<Rightarrow> methods_loop R exec fb step_idx step_name 0 ml (s3\<lparr>world := w\<rparr>))
            else methods_loop R exec fb step_idx step_name 0 ml s2))"

fun steps_loop :: "runtime \<Rightarrow> bool \<Rightarrow> bool \<Rightarrow> nat \<Rightarrow> step list \<Rightarrow> pype \<Rightarrow> pype ctl" where
  "steps_loop R exec fb step_idx [] s = Next s"
| "steps_loop R exec fb step_idx (st # sts) s =
     (case do_step R exec fb step_idx st s of
        Next s1 \<Rightarrow> steps_loop R exec fb (Suc step_idx) sts s1
      | Return s1 \<Rightarrow> Return s1
      | Raise e s1 \<Rightarrow> Raise e s1)"

text \<open>The end of \<open>_iterate\<close> (main.py, 1427-1451), reached when the loops ran to their
  end.  An exception of the final display is printed, not logged.\<close>

definition visualisation_caught :: "exn \<Rightarrow> pype \<Rightarrow> exn option \<times> pype" where
  "visualisation_caught ex s =
     (if is_Exception ex
      then (None, s\<lparr>stdout := stdout s @
                       [PVisualisation (exn_class ex @ '' - '' @ exn_msg ex)]\<rparr>)
      else (Some ex, s))"

definition show_canvas :: "runtime \<Rightarrow> pype \<Rightarrow> exn option \<times> pype" where
  "show_canvas R s =
     (case GUI R (canvas (container (world s))) of
        Inl ex \<Rightarrow> visualisation_caught ex s
      | Inr end_pype \<Rightarrow> (None, s\<lparr>flags := (flags s)\<lparr>terminate := end_pype\<rparr>\<rparr>))"

definition finish_iteration ::
  "runtime \<Rightarrow> bool \<Rightarrow> bool \<Rightarrow> bool \<Rightarrow> pype \<Rightarrow> exn option \<times> pype" where
  "finish_iteration R exec vis fb s =
    (let s1 = (if \<not> config_eq (config_updated s) (config s)
               then s\<lparr>written := written s @ [config_updated s],
                      stdout := stdout s @ [PUpdatingConfig]\<rparr>
               else s);
         s2 = (if exec then s1\<lparr>stdout := stdout s1 @ [PFinished]\<rparr> else s1)
     in
     if vis \<and> fb then
       (let s3 = s2\<lparr>stdout := stdout s2 @ [PAutoshow]\<rparr> in
        if canvas (container (world s3)) = PNone then
          (case container_run R (Call [] [(''fun'', PStr ''select_canvas'')]) (world s3) of
             (Some ex, w) \<Rightarrow> visualisation_caught ex (s3\<lparr>world := w\<rparr>)
           | (None, w) \<Rightarrow>
               show_canvas R (s3\<lparr>world := w, stdout := stdout s3 @ [PAutoselectCanvas]\<rparr>))
        else show_canvas R s3)
     else if exec then (None, s2\<lparr>flags := (flags s2)\<lparr>terminate := True\<rparr>\<rparr>)
     else (None, s2))"

text \<open>
  \<open>Pype._iterate\<close> (main.py, 1217-1451).  The parameters \<open>config\<close> and \<open>annotations\<close> are
  not used by the body.  The result is the exception that leaves the method, if any, and
  the engine; both \<open>return\<close> and the end of the body return \<open>None\<close>.
\<close>

definition start_iteration :: "bool \<Rightarrow> pype \<Rightarrow> pype" where
  "start_iteration exec s =
    (let s1 = (if exec then s\<lparr>stdout := stdout s @ [PNewIteration]\<rparr> else s);
         s2 = (if \<not> dry_run (flags s1)
               then s1\<lparr>world := (world s1)\<lparr>container := reset (container (world s1))\<rparr>\<rparr>
               else s1)
     in s2\<lparr>annotation_counter := fresh_counter, config_updated := config s2,
           config_parsed_flattened := []\<rparr>)"

definition iterate :: "runtime \<Rightarrow> bool \<Rightarrow> bool \<Rightarrow> bool \<Rightarrow> pype \<Rightarrow> exn option \<times> pype" where
  "iterate R exec vis fb s =
    (case steps_loop R exec fb 0 (config (start_iteration exec s)) (start_iteration exec s) of
       Raise ex s1 \<Rightarrow> (Some ex, s1)
     | Return s1 \<Rightarrow> (None, s1)
     | Next s1 \<Rightarrow> finish_iteration R exec vis fb s1)"

text \<open>
  One turn of the loop of \<open>Pype.__init__\<close> (main.py, 1047-1085); \<open>content\<close> is what the
  file monitor holds when the turn starts.  The result says whether the loop goes on.
\<close>

definition run_config :: "runtime \<Rightarrow> pype \<Rightarrow> exn option \<times> bool \<times> pype" where
  "run_config R s =
     (case iterate R True (visualize (flags s)) (feedback (flags s)) s of
        (Some ex, s1) \<Rightarrow> (Some ex, False, s1)
      | (None, s1) \<Rightarrow>
          if visualize (flags s1) then
            (if terminate (flags s1)
             then (None, False, s1\<lparr>stdout := stdout s1 @ [PTerminate]\<rparr>)
             else (None, True, s1))
          else (None, False, s1))"

definition pype_loop_body ::
  "runtime \<Rightarrow> config option \<Rightarrow> pype \<Rightarrow> exn option \<times> bool \<times> pype" where
  "pype_loop_body R content s =
    (let s1 = s\<lparr>world := (world s)\<lparr>pype_restart := False\<rparr>\<rparr> in
     if feedback (flags s1) \<and> visualize (flags s1) then
       (case content of
          None \<Rightarrow> (None, True, s1\<lparr>stdout := stdout s1 @ [PStillUpdating ''no content'']\<rparr>)
        | Some cfg \<Rightarrow> run_config R (s1\<lparr>config := cfg\<rparr>))
     else run_config R s1)"

section \<open>Notions the statements use\<close>

text \<open>The name a method goes on with after the check of \<open>check_method\<close>.\<close>

definition resolved_name ::
  "(string \<times> string list) list \<Rightarrow> bool \<Rightarrow> string \<Rightarrow> string \<Rightarrow> string" where
  "resolved_name mods fix step_name n =
     (case map_of mods step_name of
        None \<Rightarrow> n
      | Some attrs \<Rightarrow>
          if n \<in> set attrs then n
          else if fix then
            (case map_of legacy_names step_name of
               None \<Rightarrow> n
             | Some table \<Rightarrow> (case map_of table n of None \<Rightarrow> n | Some u \<Rightarrow> u))
          else n)"

text \<open>The \<open>id\<close> of the \<open>ANNOTATION\<close> block of a method, if it has one: the block is read
  as \<open>dict(...)\<close> reads it, so it may be a mapping or a sequence of pairs.\<close>

definition explicit_id :: "pydict \<Rightarrow> pyval option" where
  "explicit_id args =
     (case map_of args (PStr ''ANNOTATION'') of
        None \<Rightarrow> None
      | Some v \<Rightarrow> (case py_dict v of Inl e \<Rightarrow> None | Inr d \<Rightarrow> map_of d (PStr ''id'')))"

definition meth_id :: "meth \<Rightarrow> pyval option" where
  "meth_id m = explicit_id (snd (method_name_args m))"

text \<open>The methods of a document in the order of execution, each with the name of its
  step; those whose resolved name produces annotations of type \<open>t\<close>; and, for an updated
  document, those whose own name does.\<close>

fun step_methods :: "step \<Rightarrow> (string \<times> meth) list" where
  "step_methods (SDict n (Some ms)) = map (Pair n) ms"
| "step_methods _ = []"

definition methods_of :: "config \<Rightarrow> (string \<times> meth) list" where
  "methods_of cfg = concat (map step_methods cfg)"

definition produces :: "(string \<times> string list) list \<Rightarrow> bool \<Rightarrow> string \<Rightarrow> string \<times> meth \<Rightarrow> bool" where
  "produces mods fix t sm =
     (map_of annotation_functions
        (resolved_name mods fix (fst sm) (fst (method_name_args (snd sm)))) = Some t)"

definition producing ::
  "(string \<times> string list) list \<Rightarrow> bool \<Rightarrow> string \<Rightarrow> config \<Rightarrow> meth list" where
  "producing mods fix t cfg = map snd (filter (produces mods fix t) (methods_of cfg))"

definition named_for :: "string \<Rightarrow> string \<times> meth \<Rightarrow> bool" where
  "named_for t sm = (map_of annotation_functions (fst (method_name_args (snd sm))) = Some t)"

definition annotated :: "string \<Rightarrow> config \<Rightarrow> meth list" where
  "annotated t cfg = map snd (filter (named_for t) (methods_of cfg))"

text \<open>
  The identifiers as the specification words them: the occurrence at position \<open>k\<close> of a type keeps
  the identifier it is given or, when it has none, gets letter \<open>k\<close> of the alphabet; with
  no identifier given at all these are the first letters.
\<close>

fun expected_ids :: "nat \<Rightarrow> meth list \<Rightarrow> pyval option list" where
  "expected_ids k [] = []"
| "expected_ids k (m # ms) =
     (case meth_id m of
        Some v \<Rightarrow> Some v
      | None \<Rightarrow> Some (PStr [ascii_lowercase ! k])) # expected_ids (Suc k) ms"

definition first_letters :: "nat \<Rightarrow> pyval option list" where
  "first_letters n = map (\<lambda>k. Some (PStr [ascii_lowercase ! k])) [0..<n]"

text \<open>A Python mapping has each key once, at every depth.\<close>

fun wf_val :: "pyval \<Rightarrow> bool" where
  "wf_val (PDict xs) =
     (distinct (map fst xs) \<and> list_all (\<lambda>kv. wf_val (fst kv) \<and> wf_val (snd kv)) xs)"
| "wf_val (PList xs) = list_all wf_val xs"
| "wf_val (PTuple xs) = list_all wf_val xs"
| "wf_val _ = True"

text \<open>
  A normalized document: every method name is a function of its step's module, and
  every annotation-producing method has an \<open>ANNOTATION\<close> block with \<open>type\<close>, \<open>id\<close> and
  \<open>edit\<close>.
\<close>

definition normalized_method :: "string list \<Rightarrow> meth \<Rightarrow> bool" where
  "normalized_method attrs m =
     (fst (method_name_args m) \<in> set attrs
      \<and> wf_val (PDict (snd (method_name_args m)))
      \<and> (map_of annotation_functions (fst (method_name_args m)) \<noteq> None \<longrightarrow>
           (case m of
              MDict n (Some a) \<Rightarrow>
                (case map_of a (PStr ''ANNOTATION'') of
                   Some (PDict d) \<Rightarrow>
                     map_of d (PStr ''type'') \<noteq> None \<and> map_of d (PStr ''id'') \<noteq> None
                     \<and> map_of d (PStr ''edit'') \<noteq> None
                 | _ \<Rightarrow> False)
            | _ \<Rightarrow> False)))"

fun normalized_step :: "(string \<times> string list) list \<Rightarrow> step \<Rightarrow> bool" where
  "normalized_step mods (SDict n (Some ms)) =
     (case map_of mods n of
        None \<Rightarrow> ms = []
      | Some attrs \<Rightarrow> list_all (normalized_method attrs) ms)"
| "normalized_step mods _ = True"

definition normalized :: "(string \<times> string list) list \<Rightarrow> config \<Rightarrow> bool" where
  "normalized mods cfg = list_all (normalized_step mods) cfg"

text \<open>Every occurrence that needs a letter is at a position the alphabet has.\<close>

fun ids_fit :: "nat \<Rightarrow> meth list \<Rightarrow> bool" where
  "ids_fit k [] = True"
| "ids_fit k (m # ms) = ((meth_id m = None \<longrightarrow> k < 26) \<and> ids_fit (Suc k) ms)"

section \<open>A session to evaluate the engine on\<close>

text \<open>
  The modules of \<open>phenopype.core\<close> with some of their functions, a fresh container with
  empty annotation dictionaries, and the engine as \<open>Pype.__init__\<close> sets it up with its
  default flags.
\<close>

definition example_modules :: "(string \<times> string list) list" where
  "example_modules =
    [(''preprocessing'', [''blur'', ''create_mask'', ''detect_mask'', ''write_comment'']),
     (''segmentation'', [''threshold'', ''morphology'', ''detect_contour'']),
     (''measurement'', [''set_landmark'', ''detect_skeleton'', ''compute_shape_features'']),
     (''visualization'', [''select_canvas'', ''draw_contour'', ''draw_landmark'']),
     (''export'', [''save_canvas''])]"

definition example_container :: Container where
  "example_container =
     Container_init
       [(''masks'', []), (''comments'', []), (''references'', []), (''contours'', [])]
       (PStr ''image'') PNone PNone"

definition example_flags :: flags where
  "example_flags =
     \<lparr>debug = False, autosave = True, feedback = True, fix_names = True,
      terminate = False, visualize = True, dry_run = False\<rparr>"

definition example_pype :: "config \<Rightarrow> pype" where
  "example_pype cfg =
     \<lparr>flags = example_flags, config = cfg, config_updated = [],
      config_parsed_flattened = [], log = [],
      world = \<lparr>container = example_container, pype_restart = False,
                last_print_msg = [], run_defaults = []\<rparr>,
      annotation_counter = [], stdout = [], written = []\<rparr>"

text \<open>The engine on the container of utils.py, and on stand-ins for
  \<open>self.container.run\<close>: one that returns, one that leaves the restart flag set, one
  that raises, one that keeps in the canvas the list of the \<open>fun\<close> it was called with.\<close>

definition utils_runtime :: "operations \<Rightarrow> (pyval \<Rightarrow> exn + bool) \<Rightarrow> runtime" where
  "utils_runtime core gui =
     \<lparr>modules = example_modules, container_run = utils_run core, GUI = gui\<rparr>"

definition stub_runtime :: "(call \<Rightarrow> world \<Rightarrow> exn option \<times> world) \<Rightarrow> runtime" where
  "stub_runtime run = \<lparr>modules = example_modules, container_run = run,
                        GUI = (\<lambda>c. Inr True)\<rparr>"

definition run_ok :: "call \<Rightarrow> world \<Rightarrow> exn option \<times> world" where
  "run_ok cl w = (None, w)"

definition run_restart :: "call \<Rightarrow> world \<Rightarrow> exn option \<times> world" where
  "run_restart cl w = (None, w\<lparr>pype_restart := True\<rparr>)"

definition run_raise :: "exn \<Rightarrow> call \<Rightarrow> world \<Rightarrow> exn option \<times> world" where
  "run_raise ex cl w = (Some ex, w)"

definition run_trace :: "call \<Rightarrow> world \<Rightarrow> exn option \<times> world" where
  "run_trace cl w =
     (None, w\<lparr>container := (container w)
                 \<lparr>canvas :=
                    PList ((case canvas (container w) of PList xs \<Rightarrow> xs | _ \<Rightarrow> [])
                           @ [case map_of (kw_args cl) ''fun'' of
                                None \<Rightarrow> PNone | Some v \<Rightarrow> v])\<rparr>\<rparr>)"

text \<open>The document \<open>{segmentation: [{threshold: {method: otsu}}]}\<close>.\<close>

definition threshold_document :: config where
  "threshold_document =
     [SDict ''segmentation''
        (Some [MDict ''threshold'' (Some [(PStr ''method'', PStr ''otsu'')])])]"

text \<open>An engine with the developer option \<open>dry_run\<close> whose working image has been
  changed by an earlier pass.\<close>

definition dry_run_pype :: pype where
  "dry_run_pype =
     (example_pype [])
       \<lparr>flags := example_flags\<lparr>dry_run := True\<rparr>,
        world := \<lparr>container = example_container\<lparr>image_arr := PStr ''blurred''\<rparr>,
                  pype_restart = False, last_print_msg = [], run_defaults = []\<rparr>\<rparr>"

text \<open>A container that holds the mask \<open>a\<close> with the edit policy \<open>False\<close>, and operations
  whose \<open>create_mask\<close> returns a new mask whatever it is passed.\<close>

definition stored_mask :: pyval where
  "stored_mask = PDict [(PStr ''edit'', PBool False), (PStr ''coords'', PInt 1)]"

definition masked_container :: Container where
  "masked_container =
     example_container
       \<lparr>annotations := [(''masks'', [(PStr ''a'', stored_mask)]), (''comments'', []),
                         (''references'', []), (''contours'', [])]\<rparr>"

definition redraw :: operations where
  "redraw f pos kw = Inr (PDict [(PStr ''edit'', PBool False), (PStr ''coords'', PInt 2)])"

text \<open>Documents with one method in different steps, and with two methods.\<close>

definition blur_document :: config where
  "blur_document = [SDict ''preprocessing'' (Some [MStr ''blur''])]"

definition two_step_document :: config where
  "two_step_document =
     [SDict ''preprocessing'' (Some [MStr ''blur'']),
      SDict ''segmentation'' (Some [MStr ''threshold''])]"

definition value_error :: exn where
  "value_error = Exn ''ValueError'' ''bad value'' True"

text \<open>A document whose first method is neither a function of its step nor a legacy
  name, and a document whose first method has a legacy name.\<close>

definition misspelt_document :: config where
  "misspelt_document =
     [SDict ''segmentation'' (Some [MStr ''treshold'', MStr ''threshold''])]"

definition legacy_document :: config where
  "legacy_document =
     [SDict ''segmentation'' (Some [MStr ''detect_contours'', MStr ''threshold''])]"

text \<open>Two methods of one step, the second of which produces annotations.\<close>

definition blur_mask_document :: config where
  "blur_mask_document =
     [SDict ''preprocessing'' (Some [MStr ''blur'', MStr ''create_mask''])]"

text \<open>Two masks, the first with an identifier of its own; and twenty-seven masks without
  identifiers.\<close>

definition two_masks_document :: config where
  "two_masks_document =
     [SDict ''preprocessing''
        (Some [MDict ''create_mask''
                 (Some [(PStr ''ANNOTATION'', PDict [(PStr ''id'', PStr ''x'')])]),
               MStr ''create_mask''])]"

text \<open>The same with the \<open>ANNOTATION\<close> block written as a sequence of pairs.\<close>

definition listed_masks_document :: config where
  "listed_masks_document =
     [SDict ''preprocessing''
        (Some [MDict ''create_mask''
                 (Some [(PStr ''ANNOTATION'', PList [PList [PStr ''id'', PStr ''x'']])]),
               MStr ''create_mask''])]"

definition three_masks_document :: config where
  "three_masks_document =
     [SDict ''preprocessing''
        (Some [MStr ''create_mask'', MStr ''detect_shape'', MDict ''create_mask'' None])]"

definition many_masks_document :: config where
  "many_masks_document =
     [SDict ''preprocessing'' (Some (replicate 27 (MStr ''create_mask'')))]"

text \<open>A method without annotation block, and a normalized method whose \<open>ANNOTATION\<close> block
  is not the first of its arguments.\<close>

definition mask_document :: config where
  "mask_document = [SDict ''preprocessing'' (Some [MDict ''create_mask'' (Some [])])]"

definition labelled_mask_document :: config where
  "labelled_mask_document =
     [SDict ''preprocessing''
        (Some [MDict ''create_mask''
                 (Some [(PStr ''label'', PStr ''m1''),
                        (PStr ''ANNOTATION'',
                         PDict [(PStr ''type'', PStr ''mask''), (PStr ''id'', PStr ''a''),
                                (PStr ''edit'', PBool False)])])])]"

section \<open>What one turn of the loops changes\<close>

lemma set_method_twice:
  "set_method i j e2 (set_method i j e1 cfg) = set_method i j e2 cfg"
  by (auto simp add: set_method_def split: step.splits option.splits)

lemma set_method_at:
  "i < length cfg \<Longrightarrow> cfg ! i = SDict n (Some l) \<Longrightarrow>
   set_method i j e cfg = cfg[i := SDict n (Some (l[j := e]))]"
  by (simp add: set_method_def)

lemma check_method_result:
  assumes "check_method R i sn j n a s = Inr (n', ren, s')"
  shows "n' = resolved_name (modules R) (fix_names (flags s)) sn n"
    and "flags s' = flags s" and "config s' = config s"
    and "annotation_counter s' = annotation_counter s" and "written s' = written s"
    and "world s' = world s" and "log s' = log s"
    and "config_updated s' =
          (if ren then set_method i j (MDict n' (Some a)) (config_updated s)
           else config_updated s)"
    and "ren \<longrightarrow> n \<notin> set (the (map_of (modules R) sn))"
  using assms
  by (auto simp add: check_method_def resolved_name_def
      split: option.splits if_splits)

lemma invoke_method_frame:
  "config_updated (ctl_state (invoke_method R sn n a ann s)) = config_updated s
   \<and> annotation_counter (ctl_state (invoke_method R sn n a ann s)) = annotation_counter s
   \<and> flags (ctl_state (invoke_method R sn n a ann s)) = flags s
   \<and> config (ctl_state (invoke_method R sn n a ann s)) = config s
   \<and> written (ctl_state (invoke_method R sn n a ann s)) = written s"
  by (simp add: invoke_method_def Let_def split: prod.splits option.splits)

lemma invoke_method_Return:
  "invoke_method R sn n a ann s = Return s' \<Longrightarrow> pype_restart (world s')"
  by (auto simp add: invoke_method_def Let_def split: prod.splits option.splits if_splits)

lemma execute_method_frame:
  "config_updated (ctl_state (execute_method R exec fb i sn j n a ann al s)) =
     (if exec \<and> al \<and> \<not> fb
      then set_method i j (MDict n (Some (set_passive fb a))) (config_updated s)
      else config_updated s)
   \<and> annotation_counter (ctl_state (execute_method R exec fb i sn j n a ann al s))
       = annotation_counter s
   \<and> flags (ctl_state (execute_method R exec fb i sn j n a ann al s)) = flags s
   \<and> config (ctl_state (execute_method R exec fb i sn j n a ann al s)) = config s
   \<and> written (ctl_state (execute_method R exec fb i sn j n a ann al s)) = written s"
  by (simp add: execute_method_def invoke_method_frame)

lemma execute_method_Return:
  "execute_method R exec fb i sn j n a ann al s = Return s' \<Longrightarrow>
   exec \<and> pype_restart (world s')"
  by (auto simp add: execute_method_def dest: invoke_method_Return split: if_splits)

lemma annotation_params_None:
  "map_of annotation_functions n = None \<Longrightarrow> annotation_params cnt n a = Inr (cnt, [], a, None)"
  by (simp add: annotation_params_def)

lemma map_of_append_absent:
  "map_of xs k = None \<Longrightarrow> map_of (xs @ [(k, v)]) k = Some v"
  by (simp add: map_add_def)

lemma map_of_append_other:
  "k \<noteq> k' \<Longrightarrow> map_of (xs @ [(k', v)]) k = map_of xs k"
  by (simp add: map_add_def split: option.splits)

lemma annotation_block_id:
  "annotation_block a = Inr (args0, a1) \<Longrightarrow> explicit_id a = map_of args0 (PStr ''id'')"
  by (auto simp add: annotation_block_def explicit_id_def split: option.splits sum.splits)

lemma explicit_id_cons:
  "explicit_id ((PStr ''ANNOTATION'', PDict d) # a) = map_of d (PStr ''id'')"
  by (simp add: explicit_id_def py_dict_def)

lemma default_type_id:
  "map_of (default_type t args) (PStr ''id'') = map_of args (PStr ''id'')"
  by (simp add: default_type_def map_of_append_other del: map_of_append)

lemma default_edit_id:
  "map_of (default_edit n args) (PStr ''id'') = map_of args (PStr ''id'')"
  by (simp add: default_edit_def map_of_append_other del: map_of_append)

lemma default_id_given:
  "map_of args (PStr ''id'') = Some v \<Longrightarrow> default_id c args = Inr args"
  by (simp add: default_id_def)

lemma default_id_letter:
  assumes "map_of args (PStr ''id'') = None" and "default_id c args = Inr args2" and "0 \<le> c"
  shows "c < 26" and "map_of args2 (PStr ''id'') = Some (PStr [ascii_lowercase ! nat c])"
proof -
  from assms have r: "py_index ascii_lowercase c = Inr (ascii_lowercase ! nat c) \<and> c < 26"
    by (auto simp add: default_id_def py_index_def ascii_lowercase_def
        split: sum.splits if_splits)
  then show "c < 26" by simp
  from assms(1,2) r have "args2 = args @ [(PStr ''id'', PStr [ascii_lowercase ! nat c])]"
    by (simp add: default_id_def)
  with assms(1) show "map_of args2 (PStr ''id'') = Some (PStr [ascii_lowercase ! nat c])"
    by (simp add: map_of_append_absent del: map_of_append)
qed

lemma annotation_params_Some:
  assumes "map_of annotation_functions n = Some t"
    and "annotation_params cnt n a = Inr (cnt', ann, a', upd)"
    and "map_of cnt t = Some c" and "- 1 \<le> c"
  shows "map_of cnt' t = Some (c + 1)"
    and "\<And>t'. t' \<noteq> t \<Longrightarrow> map_of cnt' t' = map_of cnt t'"
    and "\<exists>u. upd = Some u \<and>
           explicit_id u = (case explicit_id a of
                              Some v \<Rightarrow> Some v
                            | None \<Rightarrow> Some (PStr [ascii_lowercase ! nat (c + 1)]))"
    and "explicit_id a = None \<longrightarrow> nat (c + 1) < 26"
proof -
  from assms(1-3) obtain args0 a1 args2 where
      blk: "annotation_block a = Inr (args0, a1)"
      and a2: "default_id (c + 1) (default_type t args0) = Inr args2"
      and eqs: "cnt' = AList.update t (c + 1) cnt"
        "upd = Some ((PStr ''ANNOTATION'', PDict (default_edit n args2)) # a1)"
    by (auto simp add: annotation_params_def split: sum.splits)
  have ex0: "explicit_id a = map_of args0 (PStr ''id'')"
    using blk by (rule annotation_block_id)
  have both: "map_of args2 (PStr ''id'') =
               (case map_of args0 (PStr ''id'') of
                  Some v \<Rightarrow> Some v
                | None \<Rightarrow> Some (PStr [ascii_lowercase ! nat (c + 1)]))
              \<and> (map_of args0 (PStr ''id'') = None \<longrightarrow> c + 1 < 26)"
  proof (cases "map_of args0 (PStr ''id'')")
    case None
    then have "map_of (default_type t args0) (PStr ''id'') = None"
      by (simp add: default_type_id)
    from default_id_letter [OF this a2] assms(4) None
    show ?thesis by simp
  next
    case (Some v)
    then have "map_of (default_type t args0) (PStr ''id'') = Some v"
      by (simp add: default_type_id)
    from default_id_given [OF this, of "c + 1"] a2
    have "args2 = default_type t args0" by simp
    with Some show ?thesis by (simp add: default_type_id)
  qed
  then have id2: "map_of args2 (PStr ''id'') =
               (case map_of args0 (PStr ''id'') of
                  Some v \<Rightarrow> Some v
                | None \<Rightarrow> Some (PStr [ascii_lowercase ! nat (c + 1)]))"
      and bound: "map_of args0 (PStr ''id'') = None \<longrightarrow> c + 1 < 26"
    by simp_all
  show "map_of cnt' t = Some (c + 1)"
    by (simp add: eqs update_conv')
  show "\<And>t'. t' \<noteq> t \<Longrightarrow> map_of cnt' t' = map_of cnt t'"
    by (simp add: eqs update_conv')
  show "\<exists>u. upd = Some u \<and>
           explicit_id u = (case explicit_id a of
                              Some v \<Rightarrow> Some v
                            | None \<Rightarrow> Some (PStr [ascii_lowercase ! nat (c + 1)]))"
    by (simp add: eqs explicit_id_cons default_edit_id id2 ex0)
  show "explicit_id a = None \<longrightarrow> nat (c + 1) < 26"
    using bound assms(4) by (auto simp add: ex0)
qed

lemma annotation_params_other:
  assumes "annotation_params cnt n a = Inr (cnt', ann, a', upd)"
    and "map_of annotation_functions n \<noteq> Some t'"
  shows "map_of cnt' t' = map_of cnt t'"
  using assms
  by (auto simp add: annotation_params_def update_conv'
      split: option.splits sum.splits)

text \<open>What a turn of the loop over the methods that goes on to the next method has done:
  the entry it leaves in the updated document carries the resolved name, and for an
  annotation-producing method the counter of its type has moved by one and the entry
  carries the identifier given or the letter at the counter.\<close>

lemma do_method_Next:
  assumes "do_method R exec fb i sn j m s = Next s'"
  shows "flags s' = flags s \<and> config s' = config s
    \<and> (\<exists>e. fst (method_name_args e)
               = resolved_name (modules R) (fix_names (flags s)) sn (fst (method_name_args m))
          \<and> (config_updated s' = set_method i j e (config_updated s)
              \<or> config_updated s' = config_updated s \<and> e = m)
          \<and> (\<forall>t'. map_of annotation_functions (fst (method_name_args e)) \<noteq> Some t' \<longrightarrow>
                map_of (annotation_counter s') t' = map_of (annotation_counter s) t')
          \<and> (\<forall>t c. map_of annotation_functions (fst (method_name_args e)) = Some t
                 \<and> map_of (annotation_counter s) t = Some c \<and> - 1 \<le> c \<longrightarrow>
                map_of (annotation_counter s') t = Some (c + 1)
                \<and> meth_id e = (case meth_id m of
                                 Some v \<Rightarrow> Some v
                               | None \<Rightarrow> Some (PStr [ascii_lowercase ! nat (c + 1)]))
                \<and> (meth_id m = None \<longrightarrow> nat (c + 1) < 26)))"
proof -
  obtain n0 a0 where m: "method_name_args m = (n0, a0)"
    by (cases "method_name_args m")
  define s1 where "s1 = (if exec then s\<lparr>stdout := stdout s @ [PMethod n0]\<rparr> else s)"
  have s1: "flags s1 = flags s" "config s1 = config s"
      "config_updated s1 = config_updated s" "annotation_counter s1 = annotation_counter s"
    by (simp_all add: s1_def)
  from assms m obtain n ren s2 where
      chk: "check_method R i sn j n0 a0 s1 = Inr (n, ren, s2)"
    by (auto simp add: do_method_def s1_def Let_def split: sum.splits)
  note c = check_method_result [OF chk]
  from assms m chk obtain cnt ann args upd where
      ap: "annotation_params (annotation_counter s2) n a0 = Inr (cnt, ann, args, upd)"
    by (auto simp add: do_method_def s1_def Let_def split: sum.splits)
  define s3 where "s3 = s2\<lparr>annotation_counter := cnt,
      config_updated := (case upd of
           None \<Rightarrow> config_updated s2
         | Some u \<Rightarrow> set_method i j (MDict n (Some u)) (config_updated s2))\<rparr>"
  have ex: "execute_method R exec fb i sn j n args ann (ren \<and> upd = None) s3 = Next s'"
    using assms m chk ap by (simp add: do_method_def s1_def s3_def Let_def)
  from execute_method_frame [of R exec fb i sn j n args ann "ren \<and> upd = None" s3] ex
  have fr: "config_updated s' =
              (if exec \<and> (ren \<and> upd = None) \<and> \<not> fb
               then set_method i j (MDict n (Some (set_passive fb args))) (config_updated s3)
               else config_updated s3)"
      "annotation_counter s' = cnt" "flags s' = flags s" "config s' = config s"
    by (simp_all add: s3_def c s1)
  have nm: "n = resolved_name (modules R) (fix_names (flags s)) sn n0"
    using c(1) by (simp add: s1)
  have cu2: "config_updated s2 =
               (if ren then set_method i j (MDict n (Some a0)) (config_updated s)
                else config_updated s)"
    using c(8) by (simp add: s1)
  show ?thesis
  proof (cases "map_of annotation_functions n")
    case None
    with ap have u: "upd = None" "cnt = annotation_counter s" "args = a0"
      by (simp_all add: annotation_params_None c s1)
    have cu3: "config_updated s3 = config_updated s2"
      by (simp add: s3_def u)
    show ?thesis
    proof (cases ren)
      case True
      let ?e = "if exec \<and> \<not> fb then MDict n (Some (set_passive fb args))
                else MDict n (Some a0)"
      have "config_updated s' = set_method i j ?e (config_updated s)"
        using fr(1) True u by (simp add: cu3 cu2 set_method_twice)
      moreover have "fst (method_name_args ?e) = n" by simp
      ultimately show ?thesis
        using fr None u nm m by (intro conjI exI [of _ ?e]) simp_all
    next
      case False
      then have "config_updated s' = config_updated s"
        using fr(1) by (simp add: cu3 cu2)
      moreover have "n = n0"
        using chk False
        by (auto simp add: check_method_def split: option.splits if_splits)
      ultimately show ?thesis
        using fr None u nm m by (intro conjI exI [of _ m]) simp_all
    qed
  next
    case (Some t)
    have oth: "\<And>t'. t' \<noteq> t \<Longrightarrow> map_of cnt t' = map_of (annotation_counter s) t'"
      using annotation_params_other [OF ap, of _] Some by (simp add: c s1)
    have others: "\<And>c. map_of (annotation_counter s) t = Some c \<Longrightarrow> - 1 \<le> c \<Longrightarrow>
        map_of cnt t = Some (c + 1)
        \<and> (\<exists>u. upd = Some u \<and>
              explicit_id u = (case explicit_id a0 of
                                 Some v \<Rightarrow> Some v
                               | None \<Rightarrow> Some (PStr [ascii_lowercase ! nat (c + 1)])))
        \<and> (explicit_id a0 = None \<longrightarrow> nat (c + 1) < 26)"
      using annotation_params_Some [OF Some ap] by (simp add: c s1)
    from Some ap obtain u where u: "upd = Some u"
      by (auto simp add: annotation_params_def split: option.splits sum.splits)
    let ?e = "MDict n (Some u)"
    have "config_updated s' = set_method i j ?e (config_updated s)"
      using fr(1) u by (simp add: s3_def cu2 set_method_twice)
    moreover have "fst (method_name_args ?e) = n" by simp
    moreover have "meth_id ?e = explicit_id u" "meth_id m = explicit_id a0"
      by (simp_all add: meth_id_def m)
    ultimately show ?thesis
      using fr Some u nm m others oth
      by (intro conjI exI [of _ ?e]) (auto simp add: meth_id_def)
  qed
qed

section \<open>What the loops have done when they ran to their end\<close>

lemma drop_eq_Cons:
  "drop j l = m # ms \<Longrightarrow> j < length l \<and> l ! j = m \<and> drop (Suc j) l = ms"
proof -
  assume a: "drop j l = m # ms"
  then have j: "j < length l" by (cases "j < length l") simp_all
  from a have "l ! j = m" by (rule nth_via_drop)
  moreover from j a have "drop (Suc j) l = ms"
    by (simp add: Cons_nth_drop_Suc [symmetric])
  ultimately show ?thesis using j by simp
qed

lemma expected_ids_append:
  "expected_ids k (xs @ ys) = expected_ids k xs @ expected_ids (k + length xs) ys"
  by (induction xs arbitrary: k) simp_all

lemma ids_fit_append:
  "ids_fit k (xs @ ys) = (ids_fit k xs \<and> ids_fit (k + length xs) ys)"
  by (induction xs arbitrary: k) auto

lemma methods_loop_Next:
  assumes "methods_loop R exec fb i sn j ms s = Next s'"
    and "i < length (config_updated s)"
    and "config_updated s ! i = SDict sn' (Some l)"
    and "drop j l = ms"
    and "map_of (annotation_counter s) t = Some c" and "- 1 \<le> c"
  shows "flags s' = flags s \<and> config s' = config s
    \<and> (\<exists>new. config_updated s' = (config_updated s)[i := SDict sn' (Some (take j l @ new))]
          \<and> length new = length ms
          \<and> map_of (annotation_counter s') t =
              Some (c + int (length (filter (\<lambda>m. produces (modules R) (fix_names (flags s)) t
                                                (sn, m)) ms)))
          \<and> map meth_id (filter (\<lambda>e. named_for t (sn, e)) new) =
              expected_ids (nat (c + 1))
                (filter (\<lambda>m. produces (modules R) (fix_names (flags s)) t (sn, m)) ms)
          \<and> ids_fit (nat (c + 1))
                (filter (\<lambda>m. produces (modules R) (fix_names (flags s)) t (sn, m)) ms))"
  using assms
proof (induction ms arbitrary: j s c l)
  case Nil
  then have "s' = s" by simp
  moreover from Nil have "take j l = l" by simp
  moreover have "(config_updated s)[i := SDict sn' (Some l)] = config_updated s"
    using Nil.prems(3) by (metis list_update_id)
  ultimately show ?case using Nil by (intro conjI exI [of _ "[]"]) simp_all
next
  case (Cons m ms)
  from Cons.prems(1) obtain s1 where
      d: "do_method R exec fb i sn j m s = Next s1"
      and r: "methods_loop R exec fb i sn (Suc j) ms s1 = Next s'"
    by (auto split: ctl.splits)
  from drop_eq_Cons [OF Cons.prems(4)]
  have jl: "j < length l" and lj: "l ! j = m" and dr: "drop (Suc j) l = ms"
    by simp_all
  from do_method_Next [OF d] obtain e where
      fl: "flags s1 = flags s" "config s1 = config s"
      and nm: "fst (method_name_args e)
               = resolved_name (modules R) (fix_names (flags s)) sn (fst (method_name_args m))"
      and cu: "config_updated s1 = set_method i j e (config_updated s)
               \<or> config_updated s1 = config_updated s \<and> e = m"
      and oth: "\<And>t'. map_of annotation_functions (fst (method_name_args e)) \<noteq> Some t' \<Longrightarrow>
                map_of (annotation_counter s1) t' = map_of (annotation_counter s) t'"
      and own: "\<And>t c. map_of annotation_functions (fst (method_name_args e)) = Some t \<Longrightarrow>
                map_of (annotation_counter s) t = Some c \<Longrightarrow> - 1 \<le> c \<Longrightarrow>
                map_of (annotation_counter s1) t = Some (c + 1)
                \<and> meth_id e = (case meth_id m of
                                 Some v \<Rightarrow> Some v
                               | None \<Rightarrow> Some (PStr [ascii_lowercase ! nat (c + 1)]))
                \<and> (meth_id m = None \<longrightarrow> nat (c + 1) < 26)"
    by blast
  have cu1: "config_updated s1 = (config_updated s)[i := SDict sn' (Some (l[j := e]))]"
  proof -
    from cu show ?thesis
    proof
      assume "config_updated s1 = set_method i j e (config_updated s)"
      then show ?thesis
        using Cons.prems(2,3) by (simp add: set_method_at)
    next
      assume a: "config_updated s1 = config_updated s \<and> e = m"
      have "l[j := m] = l" using lj by (metis list_update_id)
      moreover have "(config_updated s)[i := SDict sn' (Some l)] = config_updated s"
        using Cons.prems(3) by (metis list_update_id)
      ultimately show ?thesis using a by simp
    qed
  qed
  have pe: "named_for t (sn, e) = produces (modules R) (fix_names (flags s)) t (sn, m)"
    by (simp add: named_for_def produces_def nm)
  define c1 where "c1 = (if named_for t (sn, e) then c + 1 else c)"
  have c1: "map_of (annotation_counter s1) t = Some c1" "- 1 \<le> c1"
  proof -
    show "map_of (annotation_counter s1) t = Some c1"
    proof (cases "named_for t (sn, e)")
      case True
      then have "map_of annotation_functions (fst (method_name_args e)) = Some t"
        by (simp add: named_for_def)
      from own [OF this Cons.prems(5,6)] True show ?thesis by (simp add: c1_def)
    next
      case False
      then have "map_of annotation_functions (fst (method_name_args e)) \<noteq> Some t"
        by (simp add: named_for_def)
      from oth [OF this] False Cons.prems(5) show ?thesis by (simp add: c1_def)
    qed
    show "- 1 \<le> c1" using Cons.prems(6) by (simp add: c1_def)
  qed
  have i1: "i < length (config_updated s1)"
    and l1: "config_updated s1 ! i = SDict sn' (Some (l[j := e]))"
    and d1: "drop (Suc j) (l[j := e]) = ms"
    using Cons.prems(2) dr by (simp_all add: cu1)
  from Cons.IH [OF r i1 l1 d1 c1]
  obtain new where
      f2: "flags s' = flags s1" "config s' = config s1"
      and n1: "config_updated s' =
               (config_updated s1)[i := SDict sn' (Some (take (Suc j) (l[j := e]) @ new))]"
      and n2: "length new = length ms"
      and n3: "map_of (annotation_counter s') t =
               Some (c1 + int (length (filter (\<lambda>m. produces (modules R) (fix_names (flags s1)) t
                                                  (sn, m)) ms)))"
      and n4: "map meth_id (filter (\<lambda>e. named_for t (sn, e)) new) =
               expected_ids (nat (c1 + 1))
                 (filter (\<lambda>m. produces (modules R) (fix_names (flags s1)) t (sn, m)) ms)"
      and n5: "ids_fit (nat (c1 + 1))
                 (filter (\<lambda>m. produces (modules R) (fix_names (flags s1)) t (sn, m)) ms)"
    by blast
  have tk: "take (Suc j) (l[j := e]) @ new = take j l @ e # new"
    using jl by (simp add: take_Suc_conv_app_nth)
  have upd: "config_updated s' =
             (config_updated s)[i := SDict sn' (Some (take j l @ e # new))]"
    by (simp add: n1 cu1 tk)
  have suc: "nat (2 + c) = Suc (nat (c + 1))"
    using Cons.prems(6) by linarith
  show ?case
  proof (cases "named_for t (sn, e)")
    case True
    then have ty: "map_of annotation_functions (fst (method_name_args e)) = Some t"
      by (simp add: named_for_def)
    note o = own [OF ty Cons.prems(5,6)]
    from True have c1v: "c1 = c + 1" by (simp add: c1_def)
    from True pe have pm: "produces (modules R) (fix_names (flags s)) t (sn, m)" by simp
    show ?thesis
      using upd n2 n3 n4 n5 f2 fl o True pm
      by (intro conjI exI [of _ "e # new"]) (simp_all add: c1v suc)
  next
    case False
    then have c1v: "c1 = c" by (simp add: c1_def)
    from False pe have pm: "\<not> produces (modules R) (fix_names (flags s)) t (sn, m)" by simp
    show ?thesis
      using upd n2 n3 n4 n5 f2 fl False pm
      by (intro conjI exI [of _ "e # new"]) (simp_all add: c1v)
  qed
qed

lemma do_step_methods:
  assumes "do_step R exec fb i (SDict n (Some ml)) s = r"
  shows "\<exists>s0. config_updated s0 = config_updated s
            \<and> annotation_counter s0 = annotation_counter s
            \<and> flags s0 = flags s \<and> config s0 = config s \<and> written s0 = written s
            \<and> (r = methods_loop R exec fb i n 0 ml s0 \<or> (\<exists>ex. r = Raise ex s0))"
proof -
  define s2 where "s2 =
     (if exec
      then s\<lparr>config_parsed_flattened := AList.update n [] (config_parsed_flattened s),
             stdout := stdout s @ [PStep n]\<rparr>
      else s\<lparr>config_parsed_flattened := AList.update n [] (config_parsed_flattened s)\<rparr>)"
  have fr2: "config_updated s2 = config_updated s"
      "annotation_counter s2 = annotation_counter s"
      "flags s2 = flags s" "config s2 = config s" "written s2 = written s"
    by (simp_all add: s2_def)
  show ?thesis
  proof (cases "n = ''visualization'' \<and> exec \<and> canvas (container (world s2)) = PNone
                \<and> ''select_canvas'' \<notin> set (map (\<lambda>m. fst (method_name_args m)) ml)")
    case False
    then have "r = methods_loop R exec fb i n 0 ml s2"
      using assms by (auto simp add: do_step_def s2_def Let_def)
    with fr2 show ?thesis by blast
  next
    case True
    obtain x w where cr:
        "container_run R (Call [PStr ''select_canvas''] [])
           (world (s2\<lparr>stdout := stdout s2 @ [PSelectCanvasAutoselect]\<rparr>)) = (x, w)"
      by (cases "container_run R (Call [PStr ''select_canvas''] [])
                   (world (s2\<lparr>stdout := stdout s2 @ [PSelectCanvasAutoselect]\<rparr>))")
    let ?s0 = "s2\<lparr>stdout := stdout s2 @ [PSelectCanvasAutoselect], world := w\<rparr>"
    have fr0: "config_updated ?s0 = config_updated s"
        "annotation_counter ?s0 = annotation_counter s"
        "flags ?s0 = flags s" "config ?s0 = config s" "written ?s0 = written s"
      by (simp_all add: fr2)
    have "r = methods_loop R exec fb i n 0 ml ?s0 \<or> (\<exists>ex. r = Raise ex ?s0)"
      using assms True cr
      by (cases x) (auto simp add: do_step_def s2_def Let_def)
    with fr0 show ?thesis by blast
  qed
qed

lemma step_methods_filter:
  "map snd (filter P (step_methods (SDict n (Some ml)))) = filter (\<lambda>m. P (n, m)) ml"
  by (induction ml) simp_all

lemma do_step_Next:
  assumes "do_step R exec fb i st s = Next s'"
    and "i < length (config_updated s)" and "config_updated s ! i = st"
    and "map_of (annotation_counter s) t = Some c" and "- 1 \<le> c"
  shows "flags s' = flags s \<and> config s' = config s
    \<and> (\<exists>st'. config_updated s' = (config_updated s)[i := st']
          \<and> map_of (annotation_counter s') t =
              Some (c + int (length (map snd
                 (filter (produces (modules R) (fix_names (flags s)) t) (step_methods st)))))
          \<and> map meth_id (map snd (filter (named_for t) (step_methods st'))) =
              expected_ids (nat (c + 1))
                (map snd (filter (produces (modules R) (fix_names (flags s)) t)
                   (step_methods st)))
          \<and> ids_fit (nat (c + 1))
                (map snd (filter (produces (modules R) (fix_names (flags s)) t)
                   (step_methods st))))"
proof -
  have same: "(config_updated s)[i := st] = config_updated s"
    using assms(3) by (metis list_update_id)
  show ?thesis
  proof (cases st)
    case (SStr x)
    with assms(1) have "s' = s" by (simp add: do_step_def)
    then show ?thesis
      using same assms(4) SStr by (intro conjI exI [of _ st]) simp_all
  next
    case (SDict n mlo)
    show ?thesis
    proof (cases mlo)
      case None
      with assms(1) SDict have
          "s' = s\<lparr>config_parsed_flattened :=
                    AList.update n [] (config_parsed_flattened s)\<rparr>"
        by (simp add: do_step_def Let_def)
      then show ?thesis
        using same assms(4) SDict None by (intro conjI exI [of _ st]) simp_all
    next
      case (Some ml)
      from do_step_methods [of R exec fb i n ml s "Next s'"] assms(1) SDict Some
      obtain s0 where
          fr: "config_updated s0 = config_updated s"
            "annotation_counter s0 = annotation_counter s"
            "flags s0 = flags s" "config s0 = config s"
          and ml: "methods_loop R exec fb i n 0 ml s0 = Next s'"
        by auto
      have a2: "i < length (config_updated s0)"
        and a3: "config_updated s0 ! i = SDict n (Some ml)"
        and a4: "drop 0 ml = ml"
        and a5: "map_of (annotation_counter s0) t = Some c"
        using assms(2-4) SDict Some by (simp_all add: fr)
      from methods_loop_Next [OF ml a2 a3 a4 a5 assms(5)]
      obtain new where
          f: "flags s' = flags s0" "config s' = config s0"
          and n1: "config_updated s' = (config_updated s0)[i := SDict n (Some new)]"
          and n3: "map_of (annotation_counter s') t =
                   Some (c + int (length (filter (\<lambda>m. produces (modules R)
                      (fix_names (flags s0)) t (n, m)) ml)))"
          and n4: "map meth_id (filter (\<lambda>e. named_for t (n, e)) new) =
                   expected_ids (nat (c + 1))
                     (filter (\<lambda>m. produces (modules R) (fix_names (flags s0)) t (n, m)) ml)"
          and n5: "ids_fit (nat (c + 1))
                     (filter (\<lambda>m. produces (modules R) (fix_names (flags s0)) t (n, m)) ml)"
        by auto
      show ?thesis
        using f n1 n3 n4 n5 SDict Some
        by (intro conjI exI [of _ "SDict n (Some new)"])
           (simp_all only: fr step_methods_filter)
    qed
  qed
qed

lemma methods_of_Cons: "methods_of (st # sts) = step_methods st @ methods_of sts"
  by (simp add: methods_of_def)

lemma steps_loop_Next:
  assumes "steps_loop R exec fb i sts s = Next s'"
    and "drop i (config_updated s) = sts"
    and "map_of (annotation_counter s) t = Some c" and "- 1 \<le> c"
  shows "flags s' = flags s \<and> config s' = config s
    \<and> (\<exists>new. config_updated s' = take i (config_updated s) @ new
          \<and> map_of (annotation_counter s') t =
              Some (c + int (length (producing (modules R) (fix_names (flags s)) t sts)))
          \<and> map meth_id (annotated t new) =
              expected_ids (nat (c + 1)) (producing (modules R) (fix_names (flags s)) t sts)
          \<and> ids_fit (nat (c + 1)) (producing (modules R) (fix_names (flags s)) t sts))"
  using assms
proof (induction sts arbitrary: i s c)
  case Nil
  then have "s' = s" "take i (config_updated s) = config_updated s" by simp_all
  then show ?case
    using Nil.prems(3)
    by (intro conjI exI [of _ "[]"]) (simp_all add: producing_def annotated_def methods_of_def)
next
  case (Cons st sts)
  from Cons.prems(1) obtain s1 where
      d: "do_step R exec fb i st s = Next s1"
      and r: "steps_loop R exec fb (Suc i) sts s1 = Next s'"
    by (auto split: ctl.splits)
  from drop_eq_Cons [OF Cons.prems(2)]
  have il: "i < length (config_updated s)" and ci: "config_updated s ! i = st"
    and dr: "drop (Suc i) (config_updated s) = sts"
    by simp_all
  let ?P = "map snd (filter (produces (modules R) (fix_names (flags s)) t) (step_methods st))"
  from do_step_Next [OF d il ci Cons.prems(3,4)] obtain st' where
      f1: "flags s1 = flags s" "config s1 = config s"
      and u1: "config_updated s1 = (config_updated s)[i := st']"
      and k1: "map_of (annotation_counter s1) t = Some (c + int (length ?P))"
      and e1: "map meth_id (map snd (filter (named_for t) (step_methods st'))) =
               expected_ids (nat (c + 1)) ?P"
      and b1: "ids_fit (nat (c + 1)) ?P"
    by blast
  have d1: "drop (Suc i) (config_updated s1) = sts"
    using dr by (simp add: u1)
  have c1: "- 1 \<le> c + int (length ?P)"
    using Cons.prems(4) by simp
  from Cons.IH [OF r d1 k1 c1] obtain new where
      f2: "flags s' = flags s1" "config s' = config s1"
      and u2: "config_updated s' = take (Suc i) (config_updated s1) @ new"
      and k2: "map_of (annotation_counter s') t =
               Some (c + int (length ?P)
                     + int (length (producing (modules R) (fix_names (flags s1)) t sts)))"
      and e2: "map meth_id (annotated t new) =
               expected_ids (nat (c + int (length ?P) + 1))
                 (producing (modules R) (fix_names (flags s1)) t sts)"
      and b2: "ids_fit (nat (c + int (length ?P) + 1))
                 (producing (modules R) (fix_names (flags s1)) t sts)"
    by blast
  have tk: "take (Suc i) (config_updated s1) @ new = take i (config_updated s) @ st' # new"
    using il by (simp add: u1 take_Suc_conv_app_nth)
  have pos: "nat (c + int (length (filter (produces (modules R) (fix_names (flags s)) t)
                                       (step_methods st))) + 1)
             = nat (c + 1)
               + length (filter (produces (modules R) (fix_names (flags s)) t)
                           (step_methods st))"
    using Cons.prems(4) by linarith
  have pr: "producing (modules R) (fix_names (flags s)) t (st # sts)
            = ?P @ producing (modules R) (fix_names (flags s)) t sts"
    by (simp add: producing_def methods_of_Cons)
  have an: "annotated t (st' # new)
            = map snd (filter (named_for t) (step_methods st')) @ annotated t new"
    by (simp add: annotated_def methods_of_Cons)
  show ?case
  proof (intro conjI exI [of _ "st' # new"])
    show "flags s' = flags s" "config s' = config s" by (simp_all add: f1 f2)
    show "config_updated s' = take i (config_updated s) @ st' # new"
      by (simp only: u2 tk)
    show "map_of (annotation_counter s') t =
          Some (c + int (length (producing (modules R) (fix_names (flags s)) t (st # sts))))"
      using k2 by (simp add: pr f1)
    show "map meth_id (annotated t (st' # new)) =
          expected_ids (nat (c + 1))
            (producing (modules R) (fix_names (flags s)) t (st # sts))"
      using e1 e2 by (simp add: pr an expected_ids_append pos f1)
    show "ids_fit (nat (c + 1)) (producing (modules R) (fix_names (flags s)) t (st # sts))"
      using b1 b2 by (simp add: pr ids_fit_append pos f1)
  qed
qed

section \<open>A pass that ran to its end\<close>

lemma do_method_Return:
  "do_method R exec fb i sn j m s = Return s' \<Longrightarrow> exec \<and> pype_restart (world s')"
  by (auto simp add: do_method_def Let_def dest: execute_method_Return
      split: prod.splits sum.splits)

lemma methods_loop_Return:
  "methods_loop R exec fb i sn j ms s = Return s' \<Longrightarrow> exec \<and> pype_restart (world s')"
  by (induction ms arbitrary: j s) (auto dest: do_method_Return split: ctl.splits)

lemma do_step_Return:
  assumes "do_step R exec fb i st s = Return s'"
  shows "exec \<and> pype_restart (world s')"
proof (cases st)
  case (SStr x)
  with assms show ?thesis by (simp add: do_step_def)
next
  case (SDict n mlo)
  show ?thesis
  proof (cases mlo)
    case None
    with assms SDict show ?thesis by (simp add: do_step_def Let_def)
  next
    case (Some ml)
    from do_step_methods [of R exec fb i n ml s "Return s'"] assms SDict Some
    obtain s0 where "methods_loop R exec fb i n 0 ml s0 = Return s'" by auto
    then show ?thesis by (rule methods_loop_Return)
  qed
qed

lemma steps_loop_Return:
  "steps_loop R exec fb i sts s = Return s' \<Longrightarrow> exec \<and> pype_restart (world s')"
  by (induction sts arbitrary: i s) (auto dest: do_step_Return split: ctl.splits)

lemma visualisation_caught_frame:
  "config_updated (snd (visualisation_caught ex s)) = config_updated s
   \<and> annotation_counter (snd (visualisation_caught ex s)) = annotation_counter s
   \<and> config (snd (visualisation_caught ex s)) = config s
   \<and> written (snd (visualisation_caught ex s)) = written s"
  by (simp add: visualisation_caught_def)

lemma show_canvas_frame:
  "config_updated (snd (show_canvas R s)) = config_updated s
   \<and> annotation_counter (snd (show_canvas R s)) = annotation_counter s
   \<and> config (snd (show_canvas R s)) = config s
   \<and> written (snd (show_canvas R s)) = written s"
  by (simp add: show_canvas_def visualisation_caught_frame split: sum.splits)

lemma finish_iteration_frame:
  "config_updated (snd (finish_iteration R exec vis fb s)) = config_updated s
   \<and> annotation_counter (snd (finish_iteration R exec vis fb s)) = annotation_counter s
   \<and> config (snd (finish_iteration R exec vis fb s)) = config s
   \<and> written (snd (finish_iteration R exec vis fb s)) =
       (if config_eq (config_updated s) (config s) then written s
        else written s @ [config_updated s])"
  by (simp add: finish_iteration_def Let_def show_canvas_frame visualisation_caught_frame
      split: prod.splits option.splits)

lemma start_iteration_simps:
  "config (start_iteration exec s) = config s"
  "config_updated (start_iteration exec s) = config s"
  "annotation_counter (start_iteration exec s) = fresh_counter"
  "flags (start_iteration exec s) = flags s"
  "written (start_iteration exec s) = written s"
  by (simp_all add: start_iteration_def Let_def)

lemma iterate_completed:
  assumes "iterate R exec vis fb s = (None, s')"
    and "\<not> exec \<or> \<not> pype_restart (world s')"
  shows "\<exists>s1. steps_loop R exec fb 0 (config s) (start_iteration exec s) = Next s1
           \<and> finish_iteration R exec vis fb s1 = (None, s')"
proof (cases "steps_loop R exec fb 0 (config s) (start_iteration exec s)")
  case (Next s1)
  with assms(1) show ?thesis by (simp add: iterate_def start_iteration_simps)
next
  case (Return s1)
  with assms(1) have "s' = s1" by (simp add: iterate_def start_iteration_simps)
  with steps_loop_Return [OF Return] assms(2) show ?thesis by simp
next
  case (Raise ex s1)
  with assms(1) show ?thesis by (simp add: iterate_def start_iteration_simps)
qed

lemma fresh_counter_start:
  "t \<in> set annotation_types \<Longrightarrow> map_of fresh_counter t = Some (- 1)"
  by (simp add: fresh_counter_def map_of_map_restrict)

text \<open>The identifiers of a pass that ran to its end, for one annotation type.\<close>

lemma iterate_ids:
  assumes "iterate R exec vis fb s = (None, s')"
    and "\<not> exec \<or> \<not> pype_restart (world s')"
    and "t \<in> set annotation_types"
  shows "map_of (annotation_counter s') t =
           Some (int (length (producing (modules R) (fix_names (flags s)) t (config s))) - 1)"
    and "map meth_id (annotated t (config_updated s')) =
           expected_ids 0 (producing (modules R) (fix_names (flags s)) t (config s))"
    and "ids_fit 0 (producing (modules R) (fix_names (flags s)) t (config s))"
proof -
  from iterate_completed [OF assms(1,2)] obtain s1 where
      lp: "steps_loop R exec fb 0 (config s) (start_iteration exec s) = Next s1"
      and fi: "finish_iteration R exec vis fb s1 = (None, s')"
    by blast
  have d: "drop 0 (config_updated (start_iteration exec s)) = config s"
    by (simp add: start_iteration_simps)
  have c: "map_of (annotation_counter (start_iteration exec s)) t = Some (- 1)"
    using assms(3) by (simp add: start_iteration_simps fresh_counter_start)
  from steps_loop_Next [OF lp d c] obtain new where
      u: "config_updated s1 = new"
      and k: "map_of (annotation_counter s1) t =
              Some (- 1 + int (length (producing (modules R) (fix_names (flags s)) t
                                         (config s))))"
      and e: "map meth_id (annotated t new) =
              expected_ids 0 (producing (modules R) (fix_names (flags s)) t (config s))"
      and b: "ids_fit 0 (producing (modules R) (fix_names (flags s)) t (config s))"
    by (auto simp add: start_iteration_simps)
  from finish_iteration_frame [of R exec vis fb s1] fi
  have fr: "config_updated s' = config_updated s1"
      "annotation_counter s' = annotation_counter s1"
    by simp_all
  show "map_of (annotation_counter s') t =
           Some (int (length (producing (modules R) (fix_names (flags s)) t (config s))) - 1)"
    using k by (simp add: fr)
  show "map meth_id (annotated t (config_updated s')) =
           expected_ids 0 (producing (modules R) (fix_names (flags s)) t (config s))"
    using e by (simp add: fr u)
  show "ids_fit 0 (producing (modules R) (fix_names (flags s)) t (config s))"
    by (rule b)
qed

section \<open>The call for one method\<close>

text \<open>The turn of the loop over the methods, in a pass that executes, is the call of
  \<open>self.container.run\<close> with the name the check ended with; and what the call leaves.\<close>

lemma invoke_method_world:
  "world (ctl_state (invoke_method R sn n a ann s)) =
     (case container_run R (run_call n a ann (annotation_counter s)) (world s) of
        (None, w) \<Rightarrow> w\<lparr>last_print_msg := []\<rparr>
      | (Some ex, w) \<Rightarrow> w)"
  by (simp add: invoke_method_def Let_def split: prod.splits option.splits)

lemma invoke_method_goes_on:
  assumes "container_run R (run_call n a ann (annotation_counter s)) (world s) = (r, w)"
    and "\<not> pype_restart w"
    and "r = None \<or> (\<exists>ex. r = Some ex \<and> is_Exception ex \<and> \<not> debug (flags s))"
  shows "\<exists>s1. invoke_method R sn n a ann s = Next s1"
  using assms by (auto simp add: invoke_method_def Let_def)

lemma do_method_kept_name:
  assumes "map_of (modules R) sn = Some attrs"
    and "method_name_args m = (n0, a0)"
    and "n0 \<in> set attrs \<or> \<not> fix_names (flags s)
         \<or> (map_of legacy_names sn = Some table \<and> map_of table n0 = None)"
    and "annotation_params (annotation_counter s) n0 a0 = Inr (counter, ann, args, updated)"
  shows "\<exists>s2. do_method R True fb i sn j m s
                = invoke_method R sn n0 (set_passive fb args) ann s2
           \<and> world s2 = world s \<and> annotation_counter s2 = counter
           \<and> log s2 = log s \<and> flags s2 = flags s
           \<and> stdout s2 = stdout s @ PMethod n0 #
               (if n0 \<notin> set attrs \<and> \<not> fix_names (flags s)
                then [PNoFunction sn n0] else [])"
proof -
  let ?s1 = "s\<lparr>stdout := stdout s @ [PMethod n0]\<rparr>"
  have "\<exists>s1'. check_method R i sn j n0 a0 ?s1 = Inr (n0, False, s1')
          \<and> world s1' = world s \<and> annotation_counter s1' = annotation_counter s
          \<and> log s1' = log s \<and> flags s1' = flags s
          \<and> stdout s1' = stdout s @ PMethod n0 #
               (if n0 \<notin> set attrs \<and> \<not> fix_names (flags s)
                then [PNoFunction sn n0] else [])"
  proof (cases "n0 \<in> set attrs")
    case True
    then show ?thesis using assms(1) by (simp add: check_method_def)
  next
    case False
    show ?thesis
    proof (cases "fix_names (flags s)")
      case True
      with False assms(3) have "map_of legacy_names sn = Some table"
          "map_of table n0 = None"
        by simp_all
      with False True show ?thesis using assms(1) by (simp add: check_method_def)
    next
      case nofix: False
      with False show ?thesis using assms(1) by (simp add: check_method_def)
    qed
  qed
  then obtain s1' where
      chk: "check_method R i sn j n0 a0 ?s1 = Inr (n0, False, s1')"
      and fr: "world s1' = world s" "annotation_counter s1' = annotation_counter s"
        "log s1' = log s" "flags s1' = flags s"
        "stdout s1' = stdout s @ PMethod n0 #
               (if n0 \<notin> set attrs \<and> \<not> fix_names (flags s)
                then [PNoFunction sn n0] else [])"
    by blast
  let ?s3 = "s1'\<lparr>annotation_counter := counter,
      config_updated := (case updated of
           None \<Rightarrow> config_updated s1'
         | Some u \<Rightarrow> set_method i j (MDict n0 (Some u)) (config_updated s1'))\<rparr>"
  have "do_method R True fb i sn j m s
        = invoke_method R sn n0 (set_passive fb args) ann ?s3"
    using assms(2,4) chk fr(2)
    by (simp add: do_method_def execute_method_def Let_def)
  moreover have "world ?s3 = world s" "annotation_counter ?s3 = counter"
      "log ?s3 = log s" "flags ?s3 = flags s" "stdout ?s3 = stdout s1'"
    by (simp_all add: fr)
  ultimately show ?thesis using fr(5) by metis
qed

lemma do_method_legacy_name:
  assumes "map_of (modules R) sn = Some attrs"
    and "method_name_args m = (n0, a0)"
    and "n0 \<notin> set attrs" and "fix_names (flags s)"
    and "map_of legacy_names sn = Some table" and "map_of table n0 = Some current"
    and "annotation_params (annotation_counter s) current a0
           = Inr (counter, ann, args, updated)"
  shows "\<exists>s2. do_method R True fb i sn j m s
                = invoke_method R sn current (set_passive fb args) ann s2
           \<and> world s2 = world s \<and> annotation_counter s2 = counter
           \<and> log s2 = log s \<and> flags s2 = flags s
           \<and> stdout s2 = stdout s @ [PMethod n0, PFixedMethodName]"
proof -
  let ?s1 = "s\<lparr>stdout := stdout s @ [PMethod n0]\<rparr>"
  let ?s2 = "?s1\<lparr>config_updated :=
                      set_method i j (MDict current (Some a0)) (config_updated ?s1),
                    stdout := stdout ?s1 @ [PFixedMethodName]\<rparr>"
  have chk: "check_method R i sn j n0 a0 ?s1 = Inr (current, True, ?s2)"
    using assms(1,3-6) by (simp add: check_method_def)
  let ?s3 = "?s2\<lparr>annotation_counter := counter,
      config_updated := (case updated of
           None \<Rightarrow> config_updated ?s2
         | Some u \<Rightarrow> set_method i j (MDict current (Some u)) (config_updated ?s2))\<rparr>"
  let ?s4 = "if (updated = None) \<and> \<not> fb
         then ?s3\<lparr>config_updated :=
                  set_method i j (MDict current (Some (set_passive fb args)))
                    (config_updated ?s3)\<rparr>
         else ?s3"
  have ap: "annotation_params (annotation_counter ?s2) current a0
           = Inr (counter, ann, args, updated)"
    using assms(7) by simp
  have "do_method R True fb i sn j m s
        = invoke_method R sn current (set_passive fb args) ann ?s4"
    unfolding do_method_def assms(2) prod.case Let_def if_True chk sum.case ap
      execute_method_def
    by simp
  moreover have "world ?s4 = world s" "annotation_counter ?s4 = counter"
      "log ?s4 = log s" "flags ?s4 = flags s"
      "stdout ?s4 = stdout s @ [PMethod n0, PFixedMethodName]"
    by simp_all
  ultimately show ?thesis by metis
qed

section \<open>Identifiers by default\<close>

text \<open>
  C10, as the code has it.  In a pass that ran to its end (it returned without an
  exception and, when it executes, without the restart flag set), the counter of an
  annotation type has been incremented once for each method of the document whose
  resolved name produces that type, whether or not the method has an identifier of its
  own, so that it ends at the number of occurrences less one; the identifiers in the
  updated document are, in the order of execution, the identifier given or else the
  letter at the position of the occurrence among all occurrences of the type; and every
  occurrence without an identifier is at a position the alphabet has.
\<close>

theorem explicit_ids_consume_letters:
  assumes "iterate R exec vis fb s = (None, s')"
    and "\<not> exec \<or> \<not> pype_restart (world s')"
    and "t \<in> set annotation_types"
  shows "map_of (annotation_counter s') t =
           Some (int (length (producing (modules R) (fix_names (flags s)) t (config s))) - 1)
    \<and> map meth_id (annotated t (config_updated s')) =
           expected_ids 0 (producing (modules R) (fix_names (flags s)) t (config s))
    \<and> ids_fit 0 (producing (modules R) (fix_names (flags s)) t (config s))"
  using iterate_ids [OF assms] by simp

theorem explicit_ids_consume_letters_witness:
  "map_of (annotation_counter (snd (iterate (stub_runtime run_ok) True False True
       (example_pype listed_masks_document)))) ''mask'' = Some 1
   \<and> map meth_id (annotated ''mask'' (config_updated (snd (iterate (stub_runtime run_ok)
       True False True (example_pype listed_masks_document)))))
     = [Some (PStr ''x''), Some (PStr ''b'')]"
proof -
  let ?R = "stub_runtime run_ok"
  let ?s = "example_pype listed_masks_document"
  let ?r = "iterate ?R True False True ?s"
  have ev: "fst ?r = None \<and> \<not> pype_restart (world (snd ?r))"
    by (simp add: iterate_def start_iteration_def example_pype_def example_flags_def
        listed_masks_document_def do_step_def do_method_def check_method_def
        stub_runtime_def example_modules_def annotation_params_def annotation_block_def
        py_dict_def
        default_type_def default_id_def default_edit_def annotation_functions_def
        fresh_counter_def annotation_types_def py_index_def ascii_lowercase_def
        execute_method_def invoke_method_def set_passive_def run_ok_def
        finish_iteration_def config_eq_def set_method_def Let_def)
  then have h1: "?r = (None, snd ?r)" by (simp add: prod_eq_iff)
  have h2: "\<not> True \<or> \<not> pype_restart (world (snd ?r))" using ev by simp
  have h3: "''mask'' \<in> set annotation_types"
    by (simp add: annotation_types_def annotation_functions_def)
  have p: "producing (modules ?R) (fix_names (flags ?s)) ''mask'' (config ?s)
           = [MDict ''create_mask''
                 (Some [(PStr ''ANNOTATION'', PList [PList [PStr ''id'', PStr ''x'']])]),
              MStr ''create_mask'']"
    by (simp add: producing_def methods_of_def produces_def resolved_name_def
        stub_runtime_def example_modules_def example_pype_def example_flags_def
        listed_masks_document_def annotation_functions_def)
  from explicit_ids_consume_letters [OF h1 h2 h3]
  show ?thesis
    by (simp add: p meth_id_def explicit_id_def py_dict_def ascii_lowercase_def)
qed

text \<open>A pass whose first invocation leaves the restart flag set returns before the
  second mask: of the two occurrences of the type one has been counted, and the second
  has no identifier in the updated document.\<close>

theorem restart_pass_counts_reached_occurrences_only:
  "fst (iterate (stub_runtime run_restart) True False True
          (example_pype two_masks_document)) = None
   \<and> map_of (annotation_counter (snd (iterate (stub_runtime run_restart) True False True
        (example_pype two_masks_document)))) ''mask'' = Some 0
   \<and> map meth_id (annotated ''mask'' (config_updated (snd (iterate
        (stub_runtime run_restart) True False True (example_pype two_masks_document)))))
       = [Some (PStr ''x''), None]
   \<and> length (producing example_modules True ''mask'' two_masks_document) = 2"
  by code_simp

lemma expected_ids_default:
  "list_all (\<lambda>m. meth_id m = None) ms \<Longrightarrow>
   expected_ids k ms = map (\<lambda>j. Some (PStr [ascii_lowercase ! (k + j)])) [0..<length ms]"
proof (induction ms arbitrary: k)
  case Nil
  show ?case by simp
next
  case (Cons m ms)
  from Cons.prems have rest: "list_all (\<lambda>m. meth_id m = None) ms" and m: "meth_id m = None"
    by simp_all
  have u: "[0..<length (m # ms)] = 0 # map Suc [0..<length ms]"
    by (simp add: upt_conv_Cons map_Suc_upt del: upt_Suc)
  show ?case
    unfolding u using Cons.IH [OF rest, of "Suc k"] m by (simp add: comp_def)
qed

lemma ids_fit_default:
  "ids_fit k ms \<Longrightarrow> list_all (\<lambda>m. meth_id m = None) ms \<Longrightarrow> ms \<noteq> [] \<Longrightarrow>
   k + length ms \<le> 26"
proof (induction ms arbitrary: k)
  case Nil
  then show ?case by simp
next
  case (Cons m ms)
  show ?case
  proof (cases "ms = []")
    case True
    with Cons.prems show ?thesis by simp
  next
    case False
    with Cons.IH [of "Suc k"] Cons.prems show ?thesis by simp
  qed
qed

text \<open>
  C1, as the code has it.  In a pass that ran to its end, when none of the \<open>N\<close> methods
  that produce annotations of a type has an identifier of its own, their identifiers in
  the updated document are the first \<open>N\<close> letters in the order of execution, and \<open>N\<close> is
  at most 26.
\<close>

theorem default_ids_are_first_letters:
  assumes "iterate R exec vis fb s = (None, s')"
    and "\<not> exec \<or> \<not> pype_restart (world s')"
    and "t \<in> set annotation_types"
    and "list_all (\<lambda>m. meth_id m = None)
           (producing (modules R) (fix_names (flags s)) t (config s))"
  shows "map meth_id (annotated t (config_updated s')) =
           first_letters (length (producing (modules R) (fix_names (flags s)) t (config s)))
    \<and> length (producing (modules R) (fix_names (flags s)) t (config s)) \<le> 26"
proof -
  let ?P = "producing (modules R) (fix_names (flags s)) t (config s)"
  from iterate_ids(2) [OF assms(1-3)] expected_ids_default [OF assms(4), of 0]
  have "map meth_id (annotated t (config_updated s')) = first_letters (length ?P)"
    by (simp add: first_letters_def)
  moreover have "length ?P \<le> 26"
    using ids_fit_default [OF iterate_ids(3) [OF assms(1-3)] assms(4)]
    by (cases "?P = []") simp_all
  ultimately show ?thesis by simp
qed

theorem default_ids_are_first_letters_witness:
  "map meth_id (annotated ''mask'' (config_updated (snd (iterate (stub_runtime run_ok)
       True False True (example_pype three_masks_document)))))
     = [Some (PStr ''a''), Some (PStr ''b''), Some (PStr ''c'')]"
proof -
  let ?R = "stub_runtime run_ok"
  let ?s = "example_pype three_masks_document"
  let ?r = "iterate ?R True False True ?s"
  have ev: "fst ?r = None \<and> \<not> pype_restart (world (snd ?r))"
    by (simp add: iterate_def start_iteration_def example_pype_def example_flags_def
        three_masks_document_def do_step_def do_method_def check_method_def
        stub_runtime_def example_modules_def annotation_params_def annotation_block_def py_dict_def
        default_type_def default_id_def default_edit_def annotation_functions_def
        fresh_counter_def annotation_types_def py_index_def ascii_lowercase_def
        legacy_names_def
        execute_method_def invoke_method_def set_passive_def run_ok_def
        finish_iteration_def config_eq_def set_method_def Let_def)
  then have h1: "?r = (None, snd ?r)" by (simp add: prod_eq_iff)
  have h2: "\<not> True \<or> \<not> pype_restart (world (snd ?r))" using ev by simp
  have h3: "''mask'' \<in> set annotation_types"
    by (simp add: annotation_types_def annotation_functions_def)
  have p: "producing (modules ?R) (fix_names (flags ?s)) ''mask'' (config ?s)
           = [MStr ''create_mask'', MStr ''detect_shape'', MDict ''create_mask'' None]"
    by (simp add: producing_def methods_of_def produces_def resolved_name_def
        stub_runtime_def example_modules_def example_pype_def example_flags_def
        three_masks_document_def annotation_functions_def legacy_names_def)
  have h4: "list_all (\<lambda>m. meth_id m = None)
              (producing (modules ?R) (fix_names (flags ?s)) ''mask'' (config ?s))"
    by (simp add: p meth_id_def explicit_id_def py_dict_def)
  from default_ids_are_first_letters [OF h1 h2 h3 h4]
  show ?thesis
    by (simp add: p first_letters_def ascii_lowercase_def upt_rec)
qed

text \<open>Twenty-seven masks without identifiers: the default of the twenty-seventh raises
  \<open>IndexError\<close>, which leaves \<open>_iterate\<close>; nothing is written.\<close>

theorem twenty_seventh_default_id_raises:
  "fst (iterate (stub_runtime run_ok) True False True (example_pype many_masks_document))
     = Some IndexError
   \<and> written (snd (iterate (stub_runtime run_ok) True False True
        (example_pype many_masks_document))) = []
   \<and> length (producing example_modules True ''mask'' many_masks_document) = 27
   \<and> list_all (\<lambda>m. meth_id m = None)
        (producing example_modules True ''mask'' many_masks_document)"
  by code_simp

section \<open>The comparison of the updated document\<close>

lemma py_eq_refl: "wf_val v \<Longrightarrow> py_eq v v"
proof (induction v)
  case (PList xs)
  then show ?case by (simp add: list_all2_same list_all_iff)
next
  case (PTuple xs)
  then show ?case by (simp add: list_all2_same list_all_iff)
next
  case (PDict xs)
  have "list_all (\<lambda>kv. case map_of xs (fst kv) of None \<Rightarrow> False
                        | Some w \<Rightarrow> py_eq (snd kv) w) xs"
    unfolding list_all_iff
  proof
    fix kv assume kv: "kv \<in> set xs"
    from PDict.prems have d: "distinct (map fst xs)" and w: "wf_val (snd kv)"
      using kv by (simp_all add: list_all_iff)
    from kv have "(fst kv, snd kv) \<in> set xs" by simp
    from map_of_is_SomeI [OF d this] have "map_of xs (fst kv) = Some (snd kv)" .
    moreover have "py_eq (snd kv) (snd kv)"
      using PDict.IH(2) [OF kv _ w] by (cases kv) simp
    ultimately show "case map_of xs (fst kv) of None \<Rightarrow> False
                     | Some w \<Rightarrow> py_eq (snd kv) w"
      by simp
  qed
  then show ?case by simp
qed simp_all

lemma length_delete_key:
  "distinct (map fst al) \<Longrightarrow> map_of al k = Some v \<Longrightarrow>
   Suc (length (AList.delete k al)) = length al"
proof (induction al)
  case Nil
  then show ?case by simp
next
  case (Cons p al)
  show ?case
  proof (cases "fst p = k")
    case True
    with Cons.prems(1) have "k \<notin> fst ` set al" by auto
    then have "AList.delete k al = al" by (rule AList.delete_id)
    with True show ?thesis by (cases p) (simp add: AList.delete_eq)
  next
    case False
    with Cons show ?thesis by (cases p) (auto simp add: AList.delete_eq)
  qed
qed

text \<open>Moving a key to the front of a mapping gives an equal mapping.\<close>

lemma py_eq_key_first:
  assumes "wf_val (PDict a)" and "map_of a k = Some v"
  shows "py_eq (PDict ((k, v) # AList.delete k a)) (PDict a)"
proof -
  from assms(1) have d: "distinct (map fst a)"
    and w: "\<And>kv. kv \<in> set a \<Longrightarrow> wf_val (snd kv)"
    by (simp_all add: list_all_iff)
  from assms(2) have kv: "(k, v) \<in> set a" by (rule map_of_SomeD)
  have one: "\<And>p. p \<in> set a \<Longrightarrow>
             (case map_of a (fst p) of None \<Rightarrow> False | Some w \<Rightarrow> py_eq (snd p) w)"
  proof -
    fix p assume p: "p \<in> set a"
    then have "(fst p, snd p) \<in> set a" by simp
    from map_of_is_SomeI [OF d this] py_eq_refl [OF w [OF p]]
    show "case map_of a (fst p) of None \<Rightarrow> False | Some w \<Rightarrow> py_eq (snd p) w"
      by simp
  qed
  have sub: "set (AList.delete k a) \<subseteq> set a"
    by (auto simp add: AList.delete_eq)
  have "list_all (\<lambda>p. case map_of a (fst p) of None \<Rightarrow> False
                       | Some w \<Rightarrow> py_eq (snd p) w) ((k, v) # AList.delete k a)"
    unfolding list_all_iff using one kv sub by auto
  moreover have "length ((k, v) # AList.delete k a) = length a"
    using length_delete_key [OF d assms(2)] by simp
  ultimately show ?thesis by simp
qed

lemma set_method_eq:
  assumes "list_all2 step_eq cu cfg" and "i < length cfg"
    and "cfg ! i = SDict sn (Some l)" and "j < length l" and "method_eq e (l ! j)"
  shows "list_all2 step_eq (set_method i j e cu) cfg"
proof -
  from assms(1,2) have len: "i < length cu" and st: "step_eq (cu ! i) (cfg ! i)"
    by (simp_all add: list_all2_lengthD list_all2_nthD2)
  from st assms(3) obtain l' where l': "cu ! i = SDict sn (Some l')"
      and ll: "list_all2 method_eq l' l"
  proof (cases "cu ! i")
    case (SStr x)
    with st assms(3) show ?thesis by simp
  next
    case (SDict n mo)
    with st assms(3) that show ?thesis by (cases mo) auto
  qed
  have "list_all2 method_eq (l'[j := e]) (l[j := l ! j])"
    using ll assms(5) by (rule list_all2_update_cong)
  then have "step_eq (SDict sn (Some (l'[j := e]))) (cfg ! i)"
    using assms(3) by simp
  then have "list_all2 step_eq (cu[i := SDict sn (Some (l'[j := e]))]) (cfg[i := cfg ! i])"
    using assms(1) by (intro list_all2_update_cong)
  then show ?thesis
    using len l' by (simp add: set_method_at)
qed

lemma annotation_params_normalized:
  assumes "map_of annotation_functions n = Some t"
    and "map_of a (PStr ''ANNOTATION'') = Some (PDict d)"
    and "map_of d (PStr ''type'') \<noteq> None" and "map_of d (PStr ''id'') \<noteq> None"
    and "map_of d (PStr ''edit'') \<noteq> None"
    and "annotation_params cnt n a = Inr (cnt', ann, a', upd)"
  shows "upd = Some ((PStr ''ANNOTATION'', PDict d) # AList.delete (PStr ''ANNOTATION'') a)"
  using assms
  by (auto simp add: annotation_params_def annotation_block_def py_dict_def default_type_def
      default_id_def default_edit_def split: option.splits)

text \<open>One turn of the loop over the methods leaves the files written and the document as
  they are, and for a normalized method the entry it leaves in the updated document is
  equal to the method.\<close>

lemma do_method_frame:
  "written (ctl_state (do_method R exec fb i sn j m s)) = written s
   \<and> config (ctl_state (do_method R exec fb i sn j m s)) = config s
   \<and> (map_of (modules R) sn = Some attrs \<and> normalized_method attrs m \<longrightarrow>
        config_updated (ctl_state (do_method R exec fb i sn j m s)) = config_updated s
        \<or> (\<exists>e. config_updated (ctl_state (do_method R exec fb i sn j m s))
                  = set_method i j e (config_updated s) \<and> method_eq e m))"
proof -
  obtain n0 a0 where m: "method_name_args m = (n0, a0)"
    by (cases "method_name_args m")
  define s1 where "s1 = (if exec then s\<lparr>stdout := stdout s @ [PMethod n0]\<rparr> else s)"
  have s1: "written s1 = written s" "config s1 = config s"
      "config_updated s1 = config_updated s"
    by (simp_all add: s1_def)
  show ?thesis
  proof (cases "check_method R i sn j n0 a0 s1")
    case (Inl e)
    then have "do_method R exec fb i sn j m s = Raise e s1"
      by (simp add: do_method_def m s1_def Let_def)
    then show ?thesis by (simp add: s1)
  next
    case (Inr x)
    then obtain n ren s2 where chk: "check_method R i sn j n0 a0 s1 = Inr (n, ren, s2)"
      by (cases x) auto
    note c = check_method_result [OF chk]
    show ?thesis
    proof (cases "annotation_params (annotation_counter s2) n a0")
      case (Inl e)
      then have r: "do_method R exec fb i sn j m s = Raise e s2"
        using chk by (simp add: do_method_def m s1_def Let_def)
      have "map_of (modules R) sn = Some attrs \<and> normalized_method attrs m \<longrightarrow> \<not> ren"
        using c(9) m by (auto simp add: normalized_method_def)
      then show ?thesis using r by (auto simp add: c s1)
    next
      case (Inr y)
      then obtain cnt ann args upd where
          ap: "annotation_params (annotation_counter s2) n a0 = Inr (cnt, ann, args, upd)"
        by (cases y) auto
      define s3 where "s3 = s2\<lparr>annotation_counter := cnt,
          config_updated := (case upd of
               None \<Rightarrow> config_updated s2
             | Some u \<Rightarrow> set_method i j (MDict n (Some u)) (config_updated s2))\<rparr>"
      have r: "do_method R exec fb i sn j m s =
               execute_method R exec fb i sn j n args ann (ren \<and> upd = None) s3"
        using chk ap by (simp add: do_method_def m s1_def s3_def Let_def)
      note fr = execute_method_frame [of R exec fb i sn j n args ann "ren \<and> upd = None" s3]
      have wc: "written (ctl_state (do_method R exec fb i sn j m s)) = written s"
          "config (ctl_state (do_method R exec fb i sn j m s)) = config s"
        using fr by (simp_all add: r s3_def c s1)
      have nz: "config_updated (ctl_state (do_method R exec fb i sn j m s)) = config_updated s
          \<or> (\<exists>e. config_updated (ctl_state (do_method R exec fb i sn j m s))
                  = set_method i j e (config_updated s) \<and> method_eq e m)"
        if a: "map_of (modules R) sn = Some attrs" and nm: "normalized_method attrs m"
      proof -
        from nm m a c(9) have nr: "\<not> ren" by (auto simp add: normalized_method_def)
        from nm m a have "n0 \<in> set attrs" by (simp add: normalized_method_def)
        with chk a have nn: "n = n0"
          by (simp add: check_method_def)
        have cu2: "config_updated s2 = config_updated s"
          using c(8) nr by (simp add: s1)
        have cus: "config_updated (ctl_state (do_method R exec fb i sn j m s))
                   = config_updated s3"
          using fr nr by (simp add: r)
        show ?thesis
        proof (cases "map_of annotation_functions n")
          case None
          with ap have "upd = None" by (simp add: annotation_params_None)
          then show ?thesis by (simp add: cus s3_def cu2)
        next
          case (Some t)
          with nm m nn obtain a d where md: "m = MDict n0 (Some a)"
              and an: "map_of a (PStr ''ANNOTATION'') = Some (PDict d)"
              and ks: "map_of d (PStr ''type'') \<noteq> None" "map_of d (PStr ''id'') \<noteq> None"
                "map_of d (PStr ''edit'') \<noteq> None"
            by (auto simp add: normalized_method_def
                split: meth.splits option.splits pyval.splits)
          from md m have a0: "a0 = a" by simp
          from nm m have wf: "wf_val (PDict a0)" by (simp add: normalized_method_def)
          from annotation_params_normalized [OF Some an ks] ap a0
          have u: "upd = Some ((PStr ''ANNOTATION'', PDict d)
                               # AList.delete (PStr ''ANNOTATION'') a)"
            by simp
          let ?e = "MDict n (Some ((PStr ''ANNOTATION'', PDict d)
                                   # AList.delete (PStr ''ANNOTATION'') a))"
          have "method_eq ?e m"
            using py_eq_key_first [OF wf [unfolded a0] an] md nn by simp
          moreover have "config_updated s3 = set_method i j ?e (config_updated s)"
            by (simp add: s3_def u cu2)
          ultimately show ?thesis using cus by auto
        qed
      qed
      show ?thesis using wc nz by blast
    qed
  qed
qed

lemma methods_loop_frame:
  "written (ctl_state (methods_loop R exec fb i sn j ms s)) = written s
   \<and> config (ctl_state (methods_loop R exec fb i sn j ms s)) = config s"
proof (induction ms arbitrary: j s)
  case Nil
  show ?case by simp
next
  case (Cons m ms)
  from do_method_frame [of R exec fb i sn j m s]
  have f: "written (ctl_state (do_method R exec fb i sn j m s)) = written s"
      "config (ctl_state (do_method R exec fb i sn j m s)) = config s"
    by simp_all
  show ?case
  proof (cases "do_method R exec fb i sn j m s")
    case (Next s1)
    with f Cons.IH [of "Suc j" s1] show ?thesis by simp
  next
    case (Return s1)
    with f show ?thesis by simp
  next
    case (Raise e s1)
    with f show ?thesis by simp
  qed
qed

lemma methods_loop_normalized:
  assumes "list_all2 step_eq (config_updated s) cfg" and "i < length cfg"
    and "cfg ! i = SDict sn (Some l)" and "drop j l = ms"
    and "map_of (modules R) sn = Some attrs"
    and "list_all (normalized_method attrs) ms"
  shows "list_all2 step_eq
           (config_updated (ctl_state (methods_loop R exec fb i sn j ms s))) cfg"
  using assms
proof (induction ms arbitrary: j s)
  case Nil
  then show ?case by simp
next
  case (Cons m ms)
  from drop_eq_Cons [OF Cons.prems(4)]
  have jl: "j < length l" and lj: "l ! j = m" and dr: "drop (Suc j) l = ms"
    by simp_all
  from Cons.prems(6) have nm: "normalized_method attrs m"
    and rest: "list_all (normalized_method attrs) ms"
    by simp_all
  let ?r = "do_method R exec fb i sn j m s"
  from do_method_frame [of R exec fb i sn j m s attrs] Cons.prems(5) nm
  have "config_updated (ctl_state ?r) = config_updated s
        \<or> (\<exists>e. config_updated (ctl_state ?r) = set_method i j e (config_updated s)
                \<and> method_eq e m)"
    by blast
  then have inv: "list_all2 step_eq (config_updated (ctl_state ?r)) cfg"
  proof
    assume "config_updated (ctl_state ?r) = config_updated s"
    with Cons.prems(1) show ?thesis by simp
  next
    assume "\<exists>e. config_updated (ctl_state ?r) = set_method i j e (config_updated s)
                \<and> method_eq e m"
    then obtain e where e: "config_updated (ctl_state ?r)
                            = set_method i j e (config_updated s)"
        and me: "method_eq e (l ! j)"
      using lj by auto
    from set_method_eq [OF Cons.prems(1,2,3) jl me] e show ?thesis by simp
  qed
  show ?case
  proof (cases ?r)
    case (Next s1)
    with inv have "list_all2 step_eq (config_updated s1) cfg" by simp
    from Cons.IH [OF this Cons.prems(2,3) dr Cons.prems(5) rest] Next
    show ?thesis by simp
  next
    case (Return s1)
    with inv show ?thesis by simp
  next
    case (Raise e s1)
    with inv show ?thesis by simp
  qed
qed

lemma do_step_frame:
  "written (ctl_state (do_step R exec fb i st s)) = written s
   \<and> config (ctl_state (do_step R exec fb i st s)) = config s
   \<and> (list_all2 step_eq (config_updated s) cfg \<and> i < length cfg \<and> cfg ! i = st
        \<and> normalized_step (modules R) st \<longrightarrow>
        list_all2 step_eq (config_updated (ctl_state (do_step R exec fb i st s))) cfg)"
proof (cases st)
  case (SStr x)
  then show ?thesis by (simp add: do_step_def)
next
  case (SDict n mlo)
  show ?thesis
  proof (cases mlo)
    case None
    with SDict show ?thesis by (simp add: do_step_def Let_def)
  next
    case (Some ml)
    from do_step_methods [of R exec fb i n ml s "do_step R exec fb i st s"] SDict Some
    obtain s0 where
        fr: "config_updated s0 = config_updated s" "config s0 = config s"
          "written s0 = written s"
        and r: "do_step R exec fb i st s = methods_loop R exec fb i n 0 ml s0
                \<or> (\<exists>ex. do_step R exec fb i st s = Raise ex s0)"
      by auto
    from r show ?thesis
    proof
      assume ex: "\<exists>ex. do_step R exec fb i st s = Raise ex s0"
      then show ?thesis using fr by auto
    next
      assume ml: "do_step R exec fb i st s = methods_loop R exec fb i n 0 ml s0"
      have nz: "list_all2 step_eq
                  (config_updated (ctl_state (methods_loop R exec fb i n 0 ml s0))) cfg"
        if a: "list_all2 step_eq (config_updated s) cfg" "i < length cfg" "cfg ! i = st"
          "normalized_step (modules R) st"
      proof (cases "map_of (modules R) n")
        case None
        with a(4) SDict Some have "ml = []" by simp
        with a(1) show ?thesis by (simp add: fr)
      next
        case (Some attrs)
        with a(4) SDict \<open>mlo = Some ml\<close> have na: "list_all (normalized_method attrs) ml"
          by simp
        have a1: "list_all2 step_eq (config_updated s0) cfg" using a(1) by (simp add: fr)
        have a3: "cfg ! i = SDict n (Some ml)" using a(3) SDict \<open>mlo = Some ml\<close> by simp
        have a4: "drop 0 ml = ml" by simp
        from methods_loop_normalized [OF a1 a(2) a3 a4 Some na] show ?thesis .
      qed
      show ?thesis
        using methods_loop_frame [of R exec fb i n 0 ml s0] nz
        by (auto simp add: ml fr)
    qed
  qed
qed

lemma steps_loop_frame:
  "written (ctl_state (steps_loop R exec fb i sts s)) = written s
   \<and> config (ctl_state (steps_loop R exec fb i sts s)) = config s
   \<and> (list_all2 step_eq (config_updated s) cfg \<and> drop i cfg = sts
        \<and> list_all (normalized_step (modules R)) sts \<longrightarrow>
        list_all2 step_eq (config_updated (ctl_state (steps_loop R exec fb i sts s))) cfg)"
proof (induction sts arbitrary: i s)
  case Nil
  show ?case by simp
next
  case (Cons st sts)
  let ?r = "do_step R exec fb i st s"
  note f = do_step_frame [of R exec fb i st s cfg]
  have inv: "list_all2 step_eq (config_updated (ctl_state ?r)) cfg
             \<and> drop (Suc i) cfg = sts \<and> list_all (normalized_step (modules R)) sts"
    if a: "list_all2 step_eq (config_updated s) cfg" "drop i cfg = st # sts"
      "list_all (normalized_step (modules R)) (st # sts)"
    using f a drop_eq_Cons [OF a(2)] by simp
  show ?case
  proof (cases ?r)
    case (Next s1)
    with f inv Cons.IH [of "Suc i" s1] show ?thesis by simp
  next
    case (Return s1)
    with f inv show ?thesis by simp
  next
    case (Raise e s1)
    with f inv show ?thesis by simp
  qed
qed

text \<open>
  C2, as the code has it.  A pass that ran to its end has written the updated document
  exactly when it is not equal to the document, and equal is Python's \<open>==\<close>, which takes
  the keys of a mapping in any order.  A pass over a normalized document, however it
  ends, leaves an updated document equal to the document and writes nothing.
\<close>

theorem document_written_when_not_equal:
  "(iterate R exec vis fb s = (None, s') \<and> (\<not> exec \<or> \<not> pype_restart (world s')) \<longrightarrow>
      written s' = (if config_eq (config_updated s') (config s) then written s
                    else written s @ [config_updated s']))
   \<and> (normalized (modules R) (config s) \<and> iterate R exec vis fb s = (r, s') \<longrightarrow>
        config_eq (config_updated s') (config s) \<and> written s' = written s)"
proof (rule conjI; rule impI)
  assume a: "iterate R exec vis fb s = (None, s') \<and> (\<not> exec \<or> \<not> pype_restart (world s'))"
  from iterate_completed [of R exec vis fb s s'] a obtain s1 where
      lp: "steps_loop R exec fb 0 (config s) (start_iteration exec s) = Next s1"
      and fi: "finish_iteration R exec vis fb s1 = (None, s')"
    by blast
  from steps_loop_frame [of R exec fb 0 "config s" "start_iteration exec s"] lp
  have "written s1 = written s" "config s1 = config s"
    by (simp_all add: start_iteration_simps)
  with finish_iteration_frame [of R exec vis fb s1] fi
  show "written s' = (if config_eq (config_updated s') (config s) then written s
                      else written s @ [config_updated s'])"
    by simp
next
  assume a: "normalized (modules R) (config s) \<and> iterate R exec vis fb s = (r, s')"
  let ?s0 = "start_iteration exec s"
  let ?l = "steps_loop R exec fb 0 (config s) ?s0"
  have refl: "list_all2 step_eq (config_updated ?s0) (config s)"
  proof -
    have "step_eq st st" if "normalized_step (modules R) st" for st
    proof (cases st)
      case (SStr x)
      then show ?thesis by simp
    next
      case (SDict n mo)
      show ?thesis
      proof (cases mo)
        case None
        with SDict show ?thesis by simp
      next
        case (Some ml)
        have "method_eq m m" if "wf_val (PDict (snd (method_name_args m)))" for m
          using that py_eq_refl [of "PDict (snd (method_name_args m))"]
          by (cases m rule: method_name_args.cases) simp_all
        moreover have "\<And>m. m \<in> set ml \<Longrightarrow> wf_val (PDict (snd (method_name_args m)))"
          using \<open>normalized_step (modules R) st\<close> SDict Some
          by (cases "map_of (modules R) n")
             (auto simp add: list_all_iff normalized_method_def)
        ultimately show ?thesis
          using SDict Some by (simp add: list_all2_same)
      qed
    qed
    with a show ?thesis
      by (simp add: start_iteration_simps normalized_def list_all2_same list_all_iff)
  qed
  from steps_loop_frame [of R exec fb 0 "config s" ?s0 "config s"] refl a
  have inv: "list_all2 step_eq (config_updated (ctl_state ?l)) (config s)"
      "written (ctl_state ?l) = written s" "config (ctl_state ?l) = config s"
    by (simp_all add: normalized_def start_iteration_simps)
  show "config_eq (config_updated s') (config s) \<and> written s' = written s"
  proof (cases ?l)
    case (Next s1)
    with a have "s' = snd (finish_iteration R exec vis fb s1)"
      by (simp add: iterate_def start_iteration_simps)
    with finish_iteration_frame [of R exec vis fb s1] inv Next
    show ?thesis by (simp add: config_eq_def)
  next
    case (Return s1)
    with a have "s' = s1" by (simp add: iterate_def start_iteration_simps)
    with inv Return show ?thesis by (simp add: config_eq_def)
  next
    case (Raise e s1)
    with a have "s' = s1" by (simp add: iterate_def start_iteration_simps)
    with inv Raise show ?thesis by (simp add: config_eq_def)
  qed
qed

theorem document_written_when_not_equal_witness:
  "written (snd (iterate (stub_runtime run_ok) True False True (example_pype mask_document)))
     = [config_updated (snd (iterate (stub_runtime run_ok) True False True
          (example_pype mask_document)))]
   \<and> config_eq
       (config_updated (snd (iterate (stub_runtime run_ok) True False True
          (example_pype labelled_mask_document))))
       labelled_mask_document
   \<and> written (snd (iterate (stub_runtime run_ok) True False True
        (example_pype labelled_mask_document))) = []"
proof -
  let ?R = "stub_runtime run_ok"
  let ?r1 = "iterate ?R True False True (example_pype mask_document)"
  let ?r2 = "iterate ?R True False True (example_pype labelled_mask_document)"
  have ev: "fst ?r1 = None \<and> \<not> pype_restart (world (snd ?r1))
            \<and> \<not> config_eq (config_updated (snd ?r1)) mask_document"
    by (simp add: iterate_def start_iteration_def example_pype_def example_flags_def
        mask_document_def do_step_def do_method_def check_method_def
        stub_runtime_def example_modules_def annotation_params_def annotation_block_def py_dict_def
        default_type_def default_id_def default_edit_def annotation_functions_def
        fresh_counter_def annotation_types_def py_index_def ascii_lowercase_def
        execute_method_def invoke_method_def set_passive_def run_ok_def
        finish_iteration_def config_eq_def set_method_def Let_def)
  then have h1: "?r1 = (None, snd ?r1) \<and> (\<not> True \<or> \<not> pype_restart (world (snd ?r1)))"
    by (simp add: prod_eq_iff)
  have h2: "normalized (modules ?R) (config (example_pype labelled_mask_document))
            \<and> ?r2 = (fst ?r2, snd ?r2)"
    by (simp add: normalized_def normalized_method_def stub_runtime_def example_modules_def
        example_pype_def labelled_mask_document_def annotation_functions_def)
  have c1: "config (example_pype mask_document) = mask_document"
    and c2: "config (example_pype labelled_mask_document) = labelled_mask_document"
    and w: "written (example_pype mask_document) = []"
      "written (example_pype labelled_mask_document) = []"
    by (simp_all add: example_pype_def)
  from document_written_when_not_equal
         [where R = ?R and exec = True and vis = False and fb = True
            and s = "example_pype mask_document" and s' = "snd ?r1", THEN conjunct1] h1
  have "written (snd ?r1) = [config_updated (snd ?r1)]"
    using ev by (simp add: c1 w)
  moreover from document_written_when_not_equal
         [where R = ?R and exec = True and vis = False and fb = True
            and s = "example_pype labelled_mask_document" and r = "fst ?r2"
            and s' = "snd ?r2", THEN conjunct2] h2
  have "config_eq (config_updated (snd ?r2)) labelled_mask_document
        \<and> written (snd ?r2) = []"
    by (simp add: c2 w)
  ultimately show ?thesis by simp
qed

text \<open>A pass that the restart flag ends leaves an updated document that is not equal to
  the document, and does not write it.  A pass over a document whose \<open>ANNOTATION\<close> block
  is not the first argument runs to its end with an updated document that has the block
  first, so the two differ as ordered structures, and does not write it either.\<close>

theorem differing_document_not_written:
  "\<not> config_eq
       (config_updated (snd (iterate (stub_runtime run_restart) True False True
          (example_pype mask_document))))
       mask_document
   \<and> written (snd (iterate (stub_runtime run_restart) True False True
        (example_pype mask_document))) = []
   \<and> config_updated (snd (iterate (stub_runtime run_ok) True False True
        (example_pype labelled_mask_document))) \<noteq> labelled_mask_document
   \<and> written (snd (iterate (stub_runtime run_ok) True False True
        (example_pype labelled_mask_document))) = []"
  by (simp add: iterate_def start_iteration_def example_pype_def example_flags_def
      mask_document_def labelled_mask_document_def do_step_def do_method_def
      check_method_def stub_runtime_def example_modules_def annotation_params_def
      annotation_block_def py_dict_def default_type_def default_id_def default_edit_def
      annotation_functions_def fresh_counter_def annotation_types_def py_index_def
      ascii_lowercase_def execute_method_def invoke_method_def set_passive_def
      run_ok_def run_restart_def finish_iteration_def config_eq_def set_method_def
      AList.delete_eq Let_def)

section \<open>Resolution of a method name\<close>

text \<open>
  C3, as the code has it, for a step whose name is a module.  A name the module has is
  kept and the updated document is not touched.  A name the module does not have is
  replaced by the current name, in the entry of the updated document too, when the names
  are fixed and the legacy table of the step has it; when the names are fixed and the
  table does not have it, the name is kept and nothing is printed; when the names are
  not fixed, the line that the module has no such function is printed.  In each case
  the method goes on to its annotation parameters and, in a pass that executes, the
  turn of the loop is the call of \<open>self.container.run\<close> with the name the check ended
  with, in a state with the world as it was: no invocation is skipped.  The world
  after the turn is the one the call returned.  The turn goes on to the next method
  unless the call left the restart flag set or raised an exception that is not caught,
  and the loop then takes the methods that follow.
\<close>

theorem name_resolution:
  assumes "map_of (modules R) step_name = Some attrs"
  shows "(method_name \<in> set attrs \<longrightarrow>
           (\<exists>s1. check_method R i step_name j method_name method_args s
                    = Inr (method_name, False, s1)
                 \<and> config_updated s1 = config_updated s \<and> stdout s1 = stdout s))
    \<and> (method_name \<notin> set attrs \<and> fix_names (flags s)
         \<and> map_of legacy_names step_name = Some table
         \<and> map_of table method_name = Some current \<longrightarrow>
           check_method R i step_name j method_name method_args s
             = Inr (current, True,
                    s\<lparr>config_updated :=
                         set_method i j (MDict current (Some method_args)) (config_updated s),
                      stdout := stdout s @ [PFixedMethodName]\<rparr>))
    \<and> (method_name \<notin> set attrs \<and> fix_names (flags s)
         \<and> map_of legacy_names step_name = Some table
         \<and> map_of table method_name = None \<longrightarrow>
           check_method R i step_name j method_name method_args s
             = Inr (method_name, False, s))
    \<and> (method_name \<notin> set attrs \<and> \<not> fix_names (flags s) \<longrightarrow>
           check_method R i step_name j method_name method_args s
             = Inr (method_name, False,
                    s\<lparr>stdout := stdout s @ [PNoFunction step_name method_name]\<rparr>))
    \<and> (method_name_args m = (n0, a0)
         \<and> (n0 \<in> set attrs \<or> \<not> fix_names (flags s)
              \<or> (map_of legacy_names step_name = Some table \<and> map_of table n0 = None))
         \<and> annotation_params (annotation_counter s) n0 a0
              = Inr (counter, annotation_args, args, updated) \<longrightarrow>
           (\<exists>s2. do_method R True fb i step_name j m s
                    = invoke_method R step_name n0 (set_passive fb args) annotation_args s2
                 \<and> world s2 = world s \<and> annotation_counter s2 = counter
                 \<and> log s2 = log s \<and> flags s2 = flags s
                 \<and> stdout s2 = stdout s @ PMethod n0 #
                     (if n0 \<notin> set attrs \<and> \<not> fix_names (flags s)
                      then [PNoFunction step_name n0] else [])))
    \<and> (method_name_args m = (n0, a0)
         \<and> n0 \<notin> set attrs \<and> fix_names (flags s)
         \<and> map_of legacy_names step_name = Some table \<and> map_of table n0 = Some current
         \<and> annotation_params (annotation_counter s) current a0
              = Inr (counter, annotation_args, args, updated) \<longrightarrow>
           (\<exists>s2. do_method R True fb i step_name j m s
                    = invoke_method R step_name current (set_passive fb args)
                        annotation_args s2
                 \<and> world s2 = world s \<and> annotation_counter s2 = counter
                 \<and> log s2 = log s \<and> flags s2 = flags s
                 \<and> stdout s2 = stdout s @ [PMethod n0, PFixedMethodName]))
    \<and> world (ctl_state (invoke_method R step_name name margs aargs s0)) =
         (case container_run R (run_call name margs aargs (annotation_counter s0))
                 (world s0) of
            (None, w) \<Rightarrow> w\<lparr>last_print_msg := []\<rparr>
          | (Some ex, w) \<Rightarrow> w)
    \<and> (container_run R (run_call name margs aargs (annotation_counter s0)) (world s0)
          = (r, w')
         \<and> \<not> pype_restart w'
         \<and> (r = None \<or> (\<exists>ex. r = Some ex \<and> is_Exception ex \<and> \<not> debug (flags s0))) \<longrightarrow>
           (\<exists>s1. invoke_method R step_name name margs aargs s0 = Next s1))
    \<and> (do_method R exec fb i step_name j m s = Next s1 \<longrightarrow>
           methods_loop R exec fb i step_name j (m # ms) s
             = methods_loop R exec fb i step_name (Suc j) ms s1)"
proof -
  have c1: "method_name \<in> set attrs \<longrightarrow>
           (\<exists>s1. check_method R i step_name j method_name method_args s
                    = Inr (method_name, False, s1)
                 \<and> config_updated s1 = config_updated s \<and> stdout s1 = stdout s)"
    using assms by (simp add: check_method_def)
  have c2: "method_name \<notin> set attrs \<and> fix_names (flags s)
         \<and> map_of legacy_names step_name = Some table
         \<and> map_of table method_name = Some current \<longrightarrow>
           check_method R i step_name j method_name method_args s
             = Inr (current, True,
                    s\<lparr>config_updated :=
                         set_method i j (MDict current (Some method_args)) (config_updated s),
                      stdout := stdout s @ [PFixedMethodName]\<rparr>)"
    using assms by (simp add: check_method_def)
  have c3: "method_name \<notin> set attrs \<and> fix_names (flags s)
         \<and> map_of legacy_names step_name = Some table
         \<and> map_of table method_name = None \<longrightarrow>
           check_method R i step_name j method_name method_args s
             = Inr (method_name, False, s)"
    using assms by (simp add: check_method_def)
  have c4: "method_name \<notin> set attrs \<and> \<not> fix_names (flags s) \<longrightarrow>
           check_method R i step_name j method_name method_args s
             = Inr (method_name, False,
                    s\<lparr>stdout := stdout s @ [PNoFunction step_name method_name]\<rparr>)"
    using assms by (simp add: check_method_def)
  note c5 = do_method_kept_name [OF assms, of m n0 a0 s table counter annotation_args
      args updated fb i j]
  note c6 = do_method_legacy_name [OF assms, of m n0 a0 s table current counter
      annotation_args args updated fb i j]
  note c7 = invoke_method_world [of R step_name name margs aargs s0]
  note c8 = invoke_method_goes_on [of R name margs aargs s0 r w' step_name]
  have c9: "do_method R exec fb i step_name j m s = Next s1 \<longrightarrow>
           methods_loop R exec fb i step_name j (m # ms) s
             = methods_loop R exec fb i step_name (Suc j) ms s1"
    by simp
  show ?thesis
    apply (intro conjI)
            apply (rule c1)
           apply (rule c2)
          apply (rule c3)
         apply (rule c4)
        apply (rule impI, elim conjE, erule (2) c5)
       apply (rule impI, elim conjE, erule (5) c6)
      apply (rule c7)
     apply (rule impI, elim conjE, erule (2) c8)
    apply (rule c9)
    done
qed

theorem name_resolution_witness:
  "check_method (stub_runtime run_trace) 0 ''segmentation'' 0 ''detect_contours'' []
     (start_iteration True (example_pype legacy_document))
   = Inr (''detect_contour'', True,
          (start_iteration True (example_pype legacy_document))
            \<lparr>config_updated :=
               [SDict ''segmentation''
                  (Some [MDict ''detect_contour'' (Some []), MStr ''threshold''])],
             stdout := [PNewIteration, PFixedMethodName]\<rparr>)
   \<and> (\<exists>s2. do_method (stub_runtime run_trace) True True 0 ''segmentation'' 0
              (MStr ''detect_contours'') (start_iteration True (example_pype legacy_document))
            = invoke_method (stub_runtime run_trace) ''segmentation'' ''detect_contour'' []
                [(PStr ''type'', PStr ''contour''), (PStr ''id'', PStr ''a''),
                 (PStr ''edit'', PStr ''overwrite'')] s2
          \<and> stdout s2 = [PNewIteration, PMethod ''detect_contours'', PFixedMethodName])
   \<and> (\<exists>s2. do_method (stub_runtime run_trace) True True 0 ''segmentation'' 0
              (MStr ''treshold'') (start_iteration True (example_pype misspelt_document))
            = invoke_method (stub_runtime run_trace) ''segmentation'' ''treshold'' [] [] s2
          \<and> stdout s2 = [PNewIteration, PMethod ''treshold''])"
proof -
  let ?R = "stub_runtime run_trace"
  let ?S = "start_iteration True (example_pype legacy_document)"
  let ?M = "start_iteration True (example_pype misspelt_document)"
  let ?table = "[(''detect_contours'', ''detect_contour''),
                 (''edit_contours'', ''edit_contour'')]"
  let ?ann = "[(PStr ''type'', PStr ''contour''), (PStr ''id'', PStr ''a''),
               (PStr ''edit'', PStr ''overwrite'')]"
  have h: "map_of (modules ?R) ''segmentation''
           = Some [''threshold'', ''morphology'', ''detect_contour'']"
    by (simp add: stub_runtime_def example_modules_def)
  have lg: "map_of legacy_names ''segmentation'' = Some ?table"
    by (simp add: legacy_names_def)
  have st: "fix_names (flags ?S)" "stdout ?S = [PNewIteration]"
      "config_updated ?S = legacy_document"
      "fix_names (flags ?M)" "stdout ?M = [PNewIteration]"
    by (simp_all add: start_iteration_def example_pype_def example_flags_def Let_def)
  have ap: "annotation_params (annotation_counter ?S) ''detect_contour'' []
            = Inr (AList.update ''contour'' 0 fresh_counter, ?ann, [],
                   Some [(PStr ''ANNOTATION'', PDict ?ann)])"
    by (simp add: start_iteration_def Let_def annotation_params_def annotation_block_def
        default_type_def default_id_def default_edit_def annotation_functions_def
        fresh_counter_def annotation_types_def py_index_def ascii_lowercase_def)
  have am: "annotation_params (annotation_counter ?M) ''treshold'' []
            = Inr (annotation_counter ?M, [], [], None)"
    by (simp add: annotation_params_def annotation_functions_def)
  note A = name_resolution [OF h, where method_name = "''detect_contours''"
      and method_args = "[]" and s = ?S and i = 0 and j = 0 and table = ?table
      and current = "''detect_contour''" and m = "MStr ''detect_contours''"
      and ?n0.0 = "''detect_contours''" and ?a0.0 = "[]"
      and counter = "AList.update ''contour'' 0 fresh_counter"
      and annotation_args = ?ann and args = "[]"
      and updated = "Some [(PStr ''ANNOTATION'', PDict ?ann)]" and fb = True]
  note B = name_resolution [OF h, where s = ?M and i = 0 and j = 0 and table = ?table
      and m = "MStr ''treshold''" and ?n0.0 = "''treshold''" and ?a0.0 = "[]"
      and counter = "annotation_counter ?M" and annotation_args = "[]" and args = "[]"
      and updated = None and fb = True]
  from A [THEN conjunct2, THEN conjunct1, THEN mp] lg st
  have a: "check_method ?R 0 ''segmentation'' 0 ''detect_contours'' [] ?S
   = Inr (''detect_contour'', True,
          ?S\<lparr>config_updated :=
               [SDict ''segmentation''
                  (Some [MDict ''detect_contour'' (Some []), MStr ''threshold''])],
             stdout := [PNewIteration, PFixedMethodName]\<rparr>)"
    by (simp add: set_method_def legacy_document_def)
  from A [THEN conjunct2, THEN conjunct2, THEN conjunct2, THEN conjunct2, THEN conjunct2,
      THEN conjunct1, THEN mp] lg st ap
  have b: "\<exists>s2. do_method ?R True True 0 ''segmentation'' 0 (MStr ''detect_contours'') ?S
            = invoke_method ?R ''segmentation'' ''detect_contour'' [] ?ann s2
          \<and> stdout s2 = [PNewIteration, PMethod ''detect_contours'', PFixedMethodName]"
    by (auto simp add: set_passive_def)
  from B [THEN conjunct2, THEN conjunct2, THEN conjunct2, THEN conjunct2,
      THEN conjunct1, THEN mp] lg st am
  have c: "\<exists>s2. do_method ?R True True 0 ''segmentation'' 0 (MStr ''treshold'') ?M
            = invoke_method ?R ''segmentation'' ''treshold'' [] [] s2
          \<and> stdout s2 = [PNewIteration, PMethod ''treshold'']"
    by (auto simp add: set_passive_def)
  from a b c show ?thesis by blast
qed

text \<open>With the names fixed (the default), a name that is in neither place: nothing is
  printed about it, \<open>self.container.run\<close> is called with it, and the method that follows
  is called after it.\<close>

theorem unknown_name_is_invoked_without_diagnostic:
  "stdout (snd (iterate (stub_runtime run_trace) True False True
      (example_pype misspelt_document)))
     = [PNewIteration, PStep ''segmentation'', PMethod ''treshold'', PMethod ''threshold'',
        PFinished]
   \<and> canvas (container (world (snd (iterate (stub_runtime run_trace) True False True
        (example_pype misspelt_document))))) = PList [PStr ''treshold'', PStr ''threshold'']
   \<and> fix_names (flags (example_pype misspelt_document))
   \<and> ''treshold'' \<notin> set (the (map_of example_modules ''segmentation''))
   \<and> map_of (the (map_of legacy_names ''segmentation'')) ''treshold'' = None"
  by (simp add: iterate_def start_iteration_def example_pype_def example_flags_def
      misspelt_document_def do_step_def do_method_def check_method_def
      stub_runtime_def example_modules_def annotation_params_def annotation_block_def
      default_type_def example_container_def Container_init_def reset_def
      default_id_def default_edit_def annotation_functions_def
      execute_method_def invoke_method_def set_passive_def run_trace_def run_call_def
      legacy_names_def finish_iteration_def config_eq_def Let_def)

section \<open>The default of the edit policy\<close>

text \<open>
  C4.  The list of operations whose \<open>edit\<close> defaults to \<open>overwrite\<close> names
  \<open>detect_shape\<close> and \<open>skeletonize\<close>, which are not annotation-producing methods, so the
  default is never computed for them.  Shape detection under its current name
  \<open>detect_mask\<close> (the alias table renames \<open>detect_shape\<close> to it) and skeletonization under
  its name \<open>detect_skeleton\<close> get \<open>edit = False\<close>.
\<close>

theorem edit_default_of_detect_skeleton_and_detect_mask:
  "annotation_params fresh_counter ''detect_skeleton'' [] =
     Inr (AList.update ''line'' 0 fresh_counter,
          [(PStr ''type'', PStr ''line''), (PStr ''id'', PStr ''a''),
           (PStr ''edit'', PBool False)],
          [],
          Some [(PStr ''ANNOTATION'',
                 PDict [(PStr ''type'', PStr ''line''), (PStr ''id'', PStr ''a''),
                        (PStr ''edit'', PBool False)])])
   \<and> annotation_params fresh_counter ''detect_mask'' [] =
     Inr (AList.update ''mask'' 0 fresh_counter,
          [(PStr ''type'', PStr ''mask''), (PStr ''id'', PStr ''a''),
           (PStr ''edit'', PBool False)],
          [],
          Some [(PStr ''ANNOTATION'',
                 PDict [(PStr ''type'', PStr ''mask''), (PStr ''id'', PStr ''a''),
                        (PStr ''edit'', PBool False)])])
   \<and> map_of annotation_functions ''detect_shape'' = None
   \<and> map_of annotation_functions ''skeletonize'' = None
   \<and> map_of (the (map_of legacy_names ''preprocessing'')) ''detect_shape''
       = Some ''detect_mask''"
  by (simp add: annotation_params_def annotation_block_def py_dict_def default_type_def
      default_id_def default_edit_def fresh_counter_def annotation_types_def
      annotation_functions_def legacy_names_def py_index_def ascii_lowercase_def
      Let_def)

section \<open>Exceptions of an invocation\<close>

text \<open>A pass in which every call of \<open>self.container.run\<close> raises the same exception and
  leaves the world as it is: what one turn of each loop does to the log.\<close>

lemma do_method_raising:
  assumes "\<forall>cl w. container_run R cl w = (Some ex, w)" and "is_Exception ex"
    and "\<not> debug (flags s)" and "\<not> pype_restart (world s)"
  shows "case do_method R True fb i sn j m s of
           Next s1 \<Rightarrow> log s1 = log s @ [ex] \<and> world s1 = world s \<and> flags s1 = flags s
         | Return s1 \<Rightarrow> False
         | Raise e s1 \<Rightarrow> True"
proof -
  obtain n0 a0 where m: "method_name_args m = (n0, a0)"
    by (cases "method_name_args m")
  let ?s1 = "s\<lparr>stdout := stdout s @ [PMethod n0]\<rparr>"
  show ?thesis
  proof (cases "check_method R i sn j n0 a0 ?s1")
    case (Inl e)
    then show ?thesis using m by (simp add: do_method_def Let_def)
  next
    case (Inr res)
    then obtain n ren s2 where chk: "check_method R i sn j n0 a0 ?s1 = Inr (n, ren, s2)"
      by (cases res) auto
    note c = check_method_result [OF chk]
    show ?thesis
    proof (cases "annotation_params (annotation_counter s2) n a0")
      case (Inl e)
      then show ?thesis using m chk by (simp add: do_method_def Let_def)
    next
      case (Inr res2)
      then obtain cnt ann args upd where
          ap: "annotation_params (annotation_counter s2) n a0 = Inr (cnt, ann, args, upd)"
        by (cases res2) auto
      define s3 where "s3 = s2\<lparr>annotation_counter := cnt,
          config_updated := (case upd of
               None \<Rightarrow> config_updated s2
             | Some u \<Rightarrow> set_method i j (MDict n (Some u)) (config_updated s2))\<rparr>"
      define s4 where "s4 = (if (ren \<and> upd = None) \<and> \<not> fb
             then s3\<lparr>config_updated :=
                      set_method i j (MDict n (Some (set_passive fb args)))
                        (config_updated s3)\<rparr>
             else s3)"
      have fr: "log s4 = log s" "world s4 = world s" "flags s4 = flags s"
        by (simp_all add: s4_def s3_def c)
      have d: "do_method R True fb i sn j m s
               = invoke_method R sn n (set_passive fb args) ann s4"
        using m chk ap by (simp add: do_method_def execute_method_def Let_def s3_def s4_def)
      have "invoke_method R sn n (set_passive fb args) ann s4 =
              Next (s4\<lparr>world := world s4, log := log s4 @ [ex],
                        stdout := stdout s4 @
                          [PError (sn @ ''.'' @ n @ '': '' @ exn_class ex
                                   @ '' - '' @ exn_msg ex)]\<rparr>)"
        using assms by (simp add: invoke_method_def Let_def fr)
      with d show ?thesis by (simp add: fr)
    qed
  qed
qed

lemma methods_loop_raising:
  assumes "\<forall>cl w. container_run R cl w = (Some ex, w)" and "is_Exception ex"
    and "\<not> debug (flags s)" and "\<not> pype_restart (world s)"
  shows "case methods_loop R True fb i sn j ms s of
           Next s1 \<Rightarrow> log s1 = log s @ replicate (length ms) ex
                      \<and> world s1 = world s \<and> flags s1 = flags s
         | Return s1 \<Rightarrow> False
         | Raise e s1 \<Rightarrow> True"
  using assms(3,4)
proof (induction ms arbitrary: j s)
  case Nil
  show ?case by simp
next
  case (Cons m ms)
  from do_method_raising [OF assms(1,2) Cons.prems, where fb = fb and i = i and sn = sn
      and j = j and m = m]
  show ?case
  proof (cases "do_method R True fb i sn j m s")
    case (Next s1)
    with \<open>case do_method R True fb i sn j m s of
           Next s1 \<Rightarrow> log s1 = log s @ [ex] \<and> world s1 = world s \<and> flags s1 = flags s
         | Return s1 \<Rightarrow> False
         | Raise e s1 \<Rightarrow> True\<close>
    have s1: "log s1 = log s @ [ex]" "world s1 = world s" "flags s1 = flags s"
      by simp_all
    then have p: "\<not> debug (flags s1)" "\<not> pype_restart (world s1)"
      using Cons.prems by simp_all
    from Cons.IH [OF p, where j = "Suc j"] Next s1
    show ?thesis
      by (cases "methods_loop R True fb i sn (Suc j) ms s1")
         (simp_all add: replicate_append_same)
  next
    case (Return s1)
    with \<open>case do_method R True fb i sn j m s of
           Next s1 \<Rightarrow> log s1 = log s @ [ex] \<and> world s1 = world s \<and> flags s1 = flags s
         | Return s1 \<Rightarrow> False
         | Raise e s1 \<Rightarrow> True\<close>
    show ?thesis by simp
  next
    case (Raise e s1)
    then show ?thesis by simp
  qed
qed

lemma do_step_raising:
  assumes "\<forall>cl w. container_run R cl w = (Some ex, w)" and "is_Exception ex"
    and "\<not> debug (flags s)" and "\<not> pype_restart (world s)"
  shows "case do_step R True fb i st s of
           Next s1 \<Rightarrow> log s1 = log s @ replicate (length (step_methods st)) ex
                      \<and> world s1 = world s \<and> flags s1 = flags s
         | Return s1 \<Rightarrow> False
         | Raise e s1 \<Rightarrow> True"
proof (cases st)
  case (SStr x)
  then show ?thesis by (simp add: do_step_def)
next
  case (SDict n mlo)
  show ?thesis
  proof (cases mlo)
    case None
    with SDict show ?thesis by (simp add: do_step_def Let_def)
  next
    case (Some ml)
    let ?s2 = "s\<lparr>config_parsed_flattened := AList.update n [] (config_parsed_flattened s),
                  stdout := stdout s @ [PStep n]\<rparr>"
    have p: "\<not> debug (flags ?s2)" "\<not> pype_restart (world ?s2)"
      using assms(3,4) by simp_all
    show ?thesis
    proof (cases "n = ''visualization'' \<and> canvas (container (world s)) = PNone
                  \<and> ''select_canvas'' \<notin> set (map (\<lambda>m. fst (method_name_args m)) ml)")
      case True
      then show ?thesis
        using SDict Some assms(1) by (simp add: do_step_def Let_def)
    next
      case False
      then have "do_step R True fb i st s = methods_loop R True fb i n 0 ml ?s2"
        using SDict Some by (auto simp add: do_step_def Let_def)
      with methods_loop_raising [OF assms(1,2) p, where fb = fb and i = i and sn = n
          and j = 0 and ms = ml] SDict Some
      show ?thesis
        by (cases "methods_loop R True fb i n 0 ml ?s2") simp_all
    qed
  qed
qed

lemma steps_loop_raising:
  assumes "\<forall>cl w. container_run R cl w = (Some ex, w)" and "is_Exception ex"
    and "\<not> debug (flags s)" and "\<not> pype_restart (world s)"
  shows "case steps_loop R True fb i sts s of
           Next s1 \<Rightarrow> log s1 = log s @ replicate (length (methods_of sts)) ex
                      \<and> world s1 = world s \<and> flags s1 = flags s
         | Return s1 \<Rightarrow> False
         | Raise e s1 \<Rightarrow> True"
  using assms(3,4)
proof (induction sts arbitrary: i s)
  case Nil
  show ?case by (simp add: methods_of_def)
next
  case (Cons st sts)
  note d = do_step_raising [OF assms(1,2) Cons.prems, where fb = fb and i = i and st = st]
  show ?case
  proof (cases "do_step R True fb i st s")
    case (Next s1)
    with d have s1: "log s1 = log s @ replicate (length (step_methods st)) ex"
        "world s1 = world s" "flags s1 = flags s"
      by simp_all
    then have p: "\<not> debug (flags s1)" "\<not> pype_restart (world s1)"
      using Cons.prems by simp_all
    from Cons.IH [OF p, where i = "Suc i"] Next s1
    show ?thesis
      by (cases "steps_loop R True fb (Suc i) sts s1")
         (simp_all add: methods_of_Cons replicate_add)
  next
    case (Return s1)
    with d show ?thesis by simp
  next
    case (Raise e s1)
    then show ?thesis by simp
  qed
qed

lemma finish_iteration_log:
  "log (snd (finish_iteration R exec vis fb s)) = log s"
  by (simp add: finish_iteration_def Let_def show_canvas_def visualisation_caught_def
      split: prod.splits option.splits sum.splits)

lemma iterate_raising:
  assumes "\<forall>cl w. container_run R cl w = (Some ex, w)" and "is_Exception ex"
    and "\<not> debug (flags s)" and "\<not> pype_restart (world s)"
    and "iterate R True vis fb s = (None, s')"
  shows "log s' = log s @ replicate (length (methods_of (config s))) ex"
proof -
  let ?s0 = "start_iteration True s"
  have p: "\<not> debug (flags ?s0)" "\<not> pype_restart (world ?s0)"
    and l0: "log ?s0 = log s" "config ?s0 = config s"
    using assms(3,4) by (simp_all add: start_iteration_def Let_def)
  note l = steps_loop_raising [OF assms(1,2) p, where fb = fb and i = 0
      and sts = "config s"]
  show ?thesis
  proof (cases "steps_loop R True fb 0 (config s) ?s0")
    case (Next s1)
    with l have "log s1 = log s @ replicate (length (methods_of (config s))) ex"
      by (simp add: l0)
    moreover from Next assms(5) have "s' = snd (finish_iteration R True vis fb s1)"
      by (simp add: iterate_def l0)
    ultimately show ?thesis by (simp add: finish_iteration_log)
  next
    case (Return s1)
    with l show ?thesis by simp
  next
    case (Raise e s1)
    with assms(5) show ?thesis by (simp add: iterate_def l0)
  qed
qed

text \<open>
  C5, as the code has it.  When the call of \<open>self.container.run\<close> for a method raises: an
  exception that derives from \<open>Exception\<close>, without the flag \<open>debug\<close>, is appended to the
  log (the exception itself, nothing else) and a line with the step, the method, the
  class and the message is printed; the turn of the loop that made the call then goes on,
  from the state with that entry, with the methods that follow, and after the last
  method of a step with the steps that follow, or it returns when the restart flag is
  set.  With \<open>debug\<close>, or for an exception that does not derive from \<open>Exception\<close>, the
  exception leaves the loops and \<open>_iterate\<close> in the state the call left.  In a pass that
  executes, without \<open>debug\<close>, in which every call raises the exception and leaves the
  world as it is, and that returns, the log has got one entry for each method of the
  document.
\<close>

theorem caught_exception_is_logged_and_printed:
  assumes "container_run R
             (run_call method_name method_args annotation_args (annotation_counter s))
             (world s) = (Some ex, w)"
  shows "invoke_method R step_name method_name method_args annotation_args s =
      (if \<not> is_Exception ex \<or> debug (flags s) then Raise ex (s\<lparr>world := w\<rparr>)
       else if pype_restart w
         then Return (s\<lparr>world := w, log := log s @ [ex],
                 stdout := stdout s @
                   [PError (step_name @ ''.'' @ method_name @ '': '' @ exn_class ex
                            @ '' - '' @ exn_msg ex), PBreak]\<rparr>)
         else Next (s\<lparr>world := w, log := log s @ [ex],
                 stdout := stdout s @
                   [PError (step_name @ ''.'' @ method_name @ '': '' @ exn_class ex
                            @ '' - '' @ exn_msg ex)]\<rparr>))
    \<and> (do_method R exec fb i step_name j m s0
          = invoke_method R step_name method_name method_args annotation_args s
        \<and> is_Exception ex \<and> \<not> debug (flags s) \<and> \<not> pype_restart w \<longrightarrow>
          methods_loop R exec fb i step_name j (m # ms) s0 =
            methods_loop R exec fb i step_name (Suc j) ms
              (s\<lparr>world := w, log := log s @ [ex],
                 stdout := stdout s @
                   [PError (step_name @ ''.'' @ method_name @ '': '' @ exn_class ex
                            @ '' - '' @ exn_msg ex)]\<rparr>))
    \<and> (do_step R exec fb i st s0 = Next s1 \<longrightarrow>
          steps_loop R exec fb i (st # sts) s0 = steps_loop R exec fb (Suc i) sts s1)
    \<and> (do_method R exec fb i step_name j m s = Raise ex s1 \<longrightarrow>
          methods_loop R exec fb i step_name j (m # ms) s = Raise ex s1)
    \<and> (do_step R exec fb i st s = Raise ex s1 \<longrightarrow>
          steps_loop R exec fb i (st # sts) s = Raise ex s1)
    \<and> (steps_loop R exec fb 0 (config (start_iteration exec s)) (start_iteration exec s)
          = Raise ex s1 \<longrightarrow> iterate R exec vis fb s = (Some ex, s1))
    \<and> ((\<forall>cl w0. container_run R cl w0 = (Some ex, w0)) \<and> is_Exception ex
        \<and> \<not> debug (flags s0) \<and> \<not> pype_restart (world s0)
        \<and> iterate R True vis fb s0 = (None, s') \<longrightarrow>
          log s' = log s0 @ replicate (length (methods_of (config s0))) ex)"
proof -
  have inv: "invoke_method R step_name method_name method_args annotation_args s =
      (if \<not> is_Exception ex \<or> debug (flags s) then Raise ex (s\<lparr>world := w\<rparr>)
       else if pype_restart w
         then Return (s\<lparr>world := w, log := log s @ [ex],
                 stdout := stdout s @
                   [PError (step_name @ ''.'' @ method_name @ '': '' @ exn_class ex
                            @ '' - '' @ exn_msg ex), PBreak]\<rparr>)
         else Next (s\<lparr>world := w, log := log s @ [ex],
                 stdout := stdout s @
                   [PError (step_name @ ''.'' @ method_name @ '': '' @ exn_class ex
                            @ '' - '' @ exn_msg ex)]\<rparr>))"
    using assms by (simp add: invoke_method_def Let_def)
  have nxt: "do_method R exec fb i step_name j m s0
          = invoke_method R step_name method_name method_args annotation_args s
        \<and> is_Exception ex \<and> \<not> debug (flags s) \<and> \<not> pype_restart w \<longrightarrow>
          methods_loop R exec fb i step_name j (m # ms) s0 =
            methods_loop R exec fb i step_name (Suc j) ms
              (s\<lparr>world := w, log := log s @ [ex],
                 stdout := stdout s @
                   [PError (step_name @ ''.'' @ method_name @ '': '' @ exn_class ex
                            @ '' - '' @ exn_msg ex)]\<rparr>)"
    by (simp add: inv)
  have pass: "(\<forall>cl w0. container_run R cl w0 = (Some ex, w0)) \<and> is_Exception ex
        \<and> \<not> debug (flags s0) \<and> \<not> pype_restart (world s0)
        \<and> iterate R True vis fb s0 = (None, s') \<longrightarrow>
          log s' = log s0 @ replicate (length (methods_of (config s0))) ex"
    using iterate_raising [where R = R and ex = ex and s = s0 and vis = vis and fb = fb
        and s' = s'] by blast
  show ?thesis
    apply (intro conjI)
          apply (rule inv)
         apply (rule nxt)
        apply simp
       apply simp
      apply simp
     apply (simp add: iterate_def)
    apply (rule pass)
    done
qed

theorem caught_exception_is_logged_and_printed_witness:
  "invoke_method (stub_runtime (run_raise value_error)) ''preprocessing'' ''blur'' [] []
     (example_pype blur_mask_document) =
   Next ((example_pype blur_mask_document)
           \<lparr>world := world (example_pype blur_mask_document),
            log := [value_error],
            stdout := [PError ''preprocessing.blur: ValueError - bad value'']\<rparr>)
   \<and> (\<exists>s1. log s1 = [value_error]
          \<and> stdout s1 = [PNewIteration, PMethod ''blur'',
                           PError ''preprocessing.blur: ValueError - bad value'']
          \<and> methods_loop (stub_runtime (run_raise value_error)) True True 0
                ''preprocessing'' 0 [MStr ''blur'', MStr ''create_mask'']
                (start_iteration True (example_pype blur_mask_document))
              = methods_loop (stub_runtime (run_raise value_error)) True True 0
                  ''preprocessing'' 1 [MStr ''create_mask''] s1)
   \<and> log (snd (iterate (stub_runtime (run_raise value_error)) True False True
         (example_pype blur_mask_document))) = [value_error, value_error]"
proof -
  let ?R = "stub_runtime (run_raise value_error)"
  let ?s = "example_pype blur_mask_document"
  let ?S = "start_iteration True ?s"
  let ?r = "iterate ?R True False True ?s"
  have h: "container_run ?R (run_call ''blur'' [] [] (annotation_counter ?s)) (world ?s)
           = (Some value_error, world ?s)"
    by (simp add: stub_runtime_def run_raise_def)
  have all: "\<forall>cl w0. container_run ?R cl w0 = (Some value_error, w0)"
    by (simp add: stub_runtime_def run_raise_def)
  have fl: "is_Exception value_error" "\<not> debug (flags ?s)" "\<not> pype_restart (world ?s)"
      "log ?s = []"
    by (simp_all add: value_error_def example_pype_def example_flags_def)
  have "fst ?r = None"
    by (simp add: iterate_def start_iteration_def example_pype_def example_flags_def
        blur_mask_document_def do_step_def do_method_def check_method_def
        stub_runtime_def example_modules_def annotation_params_def annotation_block_def
        default_type_def default_id_def default_edit_def annotation_functions_def
        fresh_counter_def annotation_types_def py_index_def ascii_lowercase_def
        execute_method_def invoke_method_def set_passive_def run_raise_def value_error_def
        finish_iteration_def config_eq_def set_method_def Let_def)
  then have it: "?r = (None, snd ?r)" by (simp add: prod_eq_iff)
  have n: "length (methods_of (config ?s)) = 2"
    by (simp add: methods_of_def example_pype_def blur_mask_document_def)
  note A = caught_exception_is_logged_and_printed [OF h, where step_name = "''preprocessing''"
      and ?s0.0 = ?s and s' = "snd ?r" and vis = False and fb = True]
  from A [THEN conjunct1] fl
  have a: "invoke_method ?R ''preprocessing'' ''blur'' [] [] ?s =
     Next (?s\<lparr>world := world ?s, log := [value_error],
              stdout := [PError ''preprocessing.blur: ValueError - bad value'']\<rparr>)"
    by (simp add: value_error_def example_pype_def example_flags_def)
  from A [THEN conjunct2, THEN conjunct2, THEN conjunct2, THEN conjunct2, THEN conjunct2,
      THEN conjunct2, THEN mp] all fl it
  have b: "log (snd ?r) = [value_error, value_error]"
    by (simp add: n numeral_2_eq_2)
  have md: "map_of (modules ?R) ''preprocessing''
            = Some [''blur'', ''create_mask'', ''detect_mask'', ''write_comment'']"
    by (simp add: stub_runtime_def example_modules_def)
  have S: "flags ?S = example_flags" "log ?S = []" "stdout ?S = [PNewIteration]"
      "pype_restart (world ?S) = False"
    by (simp_all add: start_iteration_def example_pype_def example_flags_def Let_def)
  have ap: "annotation_params (annotation_counter ?S) ''blur'' []
            = Inr (annotation_counter ?S, [], [], None)"
    by (simp add: annotation_params_def annotation_functions_def)
  from do_method_kept_name [OF md, where m = "MStr ''blur''" and ?n0.0 = "''blur''"
      and ?a0.0 = "[]" and s = ?S and counter = "annotation_counter ?S" and ann = "[]"
      and args = "[]" and updated = None and fb = True and i = 0 and j = 0] ap
  obtain s2 where
      d: "do_method ?R True True 0 ''preprocessing'' 0 (MStr ''blur'') ?S
          = invoke_method ?R ''preprocessing'' ''blur'' [] [] s2"
      and s2: "world s2 = world ?S" "log s2 = log ?S" "flags s2 = flags ?S"
        "stdout s2 = [PNewIteration, PMethod ''blur'']"
    by (auto simp add: set_passive_def S)
  have h2: "container_run ?R (run_call ''blur'' [] [] (annotation_counter s2)) (world s2)
           = (Some value_error, world s2)"
    by (simp add: stub_runtime_def run_raise_def)
  let ?s1 = "s2\<lparr>world := world s2, log := log s2 @ [value_error],
                 stdout := stdout s2 @
                   [PError (''preprocessing'' @ ''.'' @ ''blur'' @ '': ''
                            @ exn_class value_error @ '' - '' @ exn_msg value_error)]\<rparr>"
  from caught_exception_is_logged_and_printed [OF h2, where step_name = "''preprocessing''"
      and ?s0.0 = ?S and m = "MStr ''blur''" and ms = "[MStr ''create_mask'']"
      and exec = True and fb = True and i = 0 and j = 0,
      THEN conjunct2, THEN conjunct1, THEN mp] d fl(1) s2 S
  have "methods_loop ?R True True 0 ''preprocessing'' 0 [MStr ''blur'', MStr ''create_mask''] ?S
        = methods_loop ?R True True 0 ''preprocessing'' (Suc 0) [MStr ''create_mask''] ?s1"
    by (simp add: example_flags_def)
  moreover have "log ?s1 = [value_error]"
      "stdout ?s1 = [PNewIteration, PMethod ''blur'',
                     PError ''preprocessing.blur: ValueError - bad value'']"
    by (simp_all add: s2 S value_error_def)
  ultimately have c: "\<exists>s1. log s1 = [value_error]
          \<and> stdout s1 = [PNewIteration, PMethod ''blur'',
                           PError ''preprocessing.blur: ValueError - bad value'']
          \<and> methods_loop ?R True True 0 ''preprocessing'' 0
                [MStr ''blur'', MStr ''create_mask''] ?S
              = methods_loop ?R True True 0 ''preprocessing'' 1 [MStr ''create_mask''] s1"
    by (intro exI [of _ ?s1]) simp
  from a b c show ?thesis by simp
qed

text \<open>The same exception raised by the methods of two documents that differ in their
  steps and methods leaves the same log: the log does not tell the step or the method,
  which are in the printed lines only.\<close>

theorem log_entry_has_no_step_or_method:
  "log (snd (iterate (stub_runtime (run_raise value_error)) True False True
        (example_pype blur_mask_document))) = [value_error, value_error]
   \<and> log (snd (iterate (stub_runtime (run_raise value_error)) True False True
        (example_pype two_step_document))) = [value_error, value_error]
   \<and> stdout (snd (iterate (stub_runtime (run_raise value_error)) True False True
        (example_pype two_step_document))) =
       [PNewIteration, PStep ''preprocessing'', PMethod ''blur'',
        PError ''preprocessing.blur: ValueError - bad value'',
        PStep ''segmentation'', PMethod ''threshold'',
        PError ''segmentation.threshold: ValueError - bad value'', PFinished]"
  by (simp add: iterate_def start_iteration_def example_pype_def example_flags_def
      blur_mask_document_def two_step_document_def do_step_def do_method_def
      check_method_def
      stub_runtime_def example_modules_def annotation_params_def annotation_block_def
      default_type_def fresh_counter_def annotation_types_def py_index_def
      ascii_lowercase_def set_method_def
      default_id_def default_edit_def annotation_functions_def
      execute_method_def invoke_method_def set_passive_def run_raise_def value_error_def
      finish_iteration_def config_eq_def Let_def)

section \<open>Container.run on an annotation that exists\<close>

text \<open>
  C6, as the code has it.  When the dictionary of masks holds an annotation under the
  identifier, \<open>Container.run\<close> with \<open>create_mask\<close> or \<open>detect_mask\<close> passes it to the
  operation as the keyword \<open>previous_annotation\<close> and then stores what the operation
  returns under that identifier; it does not read an edit policy.  The stored annotation
  is the old one exactly when the operation returns the old one.
\<close>

theorem run_stores_what_the_operation_returns:
  assumes "map_of (annotations c) ''masks'' = Some masks"
    and "map_of masks annotation_id = Some previous"
    and "hashable annotation_id"
    and "list_all (\<lambda>kv. is_str (fst kv)) kwargs"
    and "fn = ''create_mask'' \<or> fn = ''detect_mask''"
  shows "Container_run core c dflt (PStr fn) annotation_id (Some (PDict kwargs)) =
     (case core (''preprocessing.'' @ fn) [image_arr c]
             (AList.update (PStr ''previous_annotation'') previous kwargs) of
        Inl e \<Rightarrow> (Some e, c, dflt)
      | Inr annotation \<Rightarrow>
          (None,
           c\<lparr>annotations :=
                AList.update ''masks'' (AList.update annotation_id annotation masks)
                  (annotations c)\<rparr>,
           dflt))"
proof -
  have keys: "list_all (\<lambda>kv. is_str (fst kv))
                (AList.update (PStr ''previous_annotation'') previous kwargs)"
    using assms(4) by (induction kwargs) auto
  have upd: "kwargs_update ''previous_annotation'' previous (PDict kwargs)
             = Inr (PDict (AList.update (PStr ''previous_annotation'') previous kwargs))"
    by (simp add: kwargs_update_def)
  have op: "call_op core f pos
              (PDict (AList.update (PStr ''previous_annotation'') previous kwargs))
            = core f pos (AList.update (PStr ''previous_annotation'') previous kwargs)"
    for f pos
    using keys by (simp add: call_op_def)
  have st: "store_annotation ''masks'' annotation_id v c
            = Inr (c\<lparr>annotations :=
                AList.update ''masks'' (AList.update annotation_id v masks)
                  (annotations c)\<rparr>)" for v
    using assms(1) by (simp add: store_annotation_def)
  from assms(5) show ?thesis
  proof
    assume "fn = ''create_mask''"
    then show ?thesis
      using assms(1-3)
      by (cases "core ''preprocessing.create_mask'' [image_arr c]
                   (AList.update (PStr ''previous_annotation'') previous kwargs)")
         (simp_all add: Container_run_def upd op st)
  next
    assume "fn = ''detect_mask''"
    then show ?thesis
      using assms(1-3)
      by (cases "core ''preprocessing.detect_mask'' [image_arr c]
                   (AList.update (PStr ''previous_annotation'') previous kwargs)")
         (simp_all add: Container_run_def upd op st)
  qed
qed

theorem run_stores_what_the_operation_returns_witness:
  "Container_run redraw masked_container [] (PStr ''create_mask'') (PStr ''a'')
      (Some (PDict [])) =
     (None,
      masked_container
        \<lparr>annotations :=
           AList.update ''masks''
             (AList.update (PStr ''a'')
                (PDict [(PStr ''edit'', PBool False), (PStr ''coords'', PInt 2)])
                [(PStr ''a'', stored_mask)])
             (annotations masked_container)\<rparr>,
      [])"
  using run_stores_what_the_operation_returns
    [of masked_container "[(PStr ''a'', stored_mask)]" "PStr ''a''" stored_mask "[]"
        "''create_mask''" redraw "[]"]
  by (simp add: masked_container_def redraw_def)

text \<open>The mask \<open>a\<close> is stored with the edit policy \<open>False\<close>; the method that made it runs
  again with the same identifier; the stored mask is replaced.\<close>

theorem rerun_replaces_stored_mask:
  "map_of (annotations masked_container) ''masks'' = Some [(PStr ''a'', stored_mask)]
   \<and> (case Container_run redraw masked_container [] (PStr ''create_mask'') (PStr ''a'')
              (Some (PDict [])) of
        (r, c, d) \<Rightarrow>
          r = None
          \<and> map_of (annotations c) ''masks''
              = Some [(PStr ''a'',
                       PDict [(PStr ''edit'', PBool False), (PStr ''coords'', PInt 2)])]
          \<and> map_of (annotations c) ''masks''
              \<noteq> map_of (annotations masked_container) ''masks'')"
  by (simp add: Container_run_def masked_container_def stored_mask_def redraw_def
      example_container_def Container_init_def kwargs_update_def call_op_def
      store_annotation_def Let_def)

section \<open>The restart flag\<close>

lemma pype_loop_body_clears_restart:
  "pype_loop_body R content (s\<lparr>world := (world s)\<lparr>pype_restart := b\<rparr>\<rparr>)
   = pype_loop_body R content s"
  by (simp add: pype_loop_body_def Let_def)

text \<open>
  C7, as the code has it.  When the call for a method leaves the restart flag set and its
  exception, if any, is caught, the loop body returns: the methods and steps that follow
  are not processed, and \<open>_iterate\<close> returns \<open>None\<close> at once, with nothing written, the
  flag \<open>terminate\<close> untouched and the restart flag still set.  The flag is cleared by the
  loop of \<open>Pype.__init__\<close> at the start of each turn, whatever it was.
\<close>

theorem restart_returns_from_pass:
  assumes "container_run R
             (run_call method_name method_args annotation_args (annotation_counter s))
             (world s) = (r, w)"
    and "pype_restart w"
    and "r = None \<or> (\<exists>ex. r = Some ex \<and> is_Exception ex \<and> \<not> debug (flags s))"
  shows "(\<exists>s1. invoke_method R step_name method_name method_args annotation_args s
                = Return s1
            \<and> pype_restart (world s1) \<and> written s1 = written s \<and> flags s1 = flags s
            \<and> config_updated s1 = config_updated s)
    \<and> (do_method R exec fb i step_name j m s = Return s2 \<longrightarrow>
           methods_loop R exec fb i step_name j (m # ms) s = Return s2)
    \<and> (do_step R exec fb i st s = Return s2 \<longrightarrow>
           steps_loop R exec fb i (st # sts) s = Return s2)
    \<and> (steps_loop R exec fb 0 (config (start_iteration exec s)) (start_iteration exec s)
           = Return s2 \<longrightarrow> iterate R exec vis fb s = (None, s2))
    \<and> pype_loop_body R content (s\<lparr>world := (world s)\<lparr>pype_restart := True\<rparr>\<rparr>)
           = pype_loop_body R content (s\<lparr>world := (world s)\<lparr>pype_restart := False\<rparr>\<rparr>)"
  using assms
  by (auto simp add: invoke_method_def iterate_def Let_def pype_loop_body_clears_restart)

theorem restart_returns_from_pass_witness:
  "\<exists>s1. invoke_method (stub_runtime run_restart) ''preprocessing'' ''blur'' [] []
           (example_pype blur_document) = Return s1
        \<and> pype_restart (world s1)
        \<and> written s1 = written (example_pype blur_document)"
proof -
  have h: "container_run (stub_runtime run_restart)
             (run_call ''blur'' [] [] (annotation_counter (example_pype blur_document)))
             (world (example_pype blur_document))
           = (None, (world (example_pype blur_document))\<lparr>pype_restart := True\<rparr>)"
    by (simp add: stub_runtime_def run_restart_def)
  have r: "pype_restart ((world (example_pype blur_document))\<lparr>pype_restart := True\<rparr>)"
    by simp
  have c: "(None :: exn option) = None
           \<or> (\<exists>ex. None = Some ex \<and> is_Exception ex
                   \<and> \<not> debug (flags (example_pype blur_document)))"
    by simp
  from restart_returns_from_pass [OF h r c, where step_name = "''preprocessing''",
      THEN conjunct1]
  show ?thesis by blast
qed

text \<open>A pass over two steps whose first invocation sets the flag: the second method is
  not processed, the flag is still set when \<open>_iterate\<close> has returned, and what is returned
  is \<open>None\<close>, as from a pass that ran to its end.\<close>

theorem restart_flag_is_left_set:
  "pype_restart (world (snd (iterate (stub_runtime run_restart) True False True
      (example_pype two_step_document))))
   \<and> stdout (snd (iterate (stub_runtime run_restart) True False True
        (example_pype two_step_document)))
       = [PNewIteration, PStep ''preprocessing'', PMethod ''blur'', PBreak]
   \<and> fst (iterate (stub_runtime run_restart) True False True
        (example_pype two_step_document)) = None
   \<and> fst (iterate (stub_runtime run_ok) True False True
        (example_pype two_step_document)) = None"
  by (simp add: iterate_def start_iteration_def example_pype_def example_flags_def
      two_step_document_def do_step_def do_method_def check_method_def
      stub_runtime_def example_modules_def annotation_params_def annotation_block_def py_dict_def default_type_def
      default_id_def default_edit_def annotation_functions_def
      execute_method_def invoke_method_def set_passive_def run_restart_def run_ok_def
      finish_iteration_def config_eq_def Let_def)

section \<open>Reset of the container\<close>

lemma reset_idem: "reset (reset c) = reset c"
  by (simp add: reset_def)

lemma start_iteration_reset:
  "\<not> dry_run (flags s) \<Longrightarrow>
   start_iteration exec (s\<lparr>world := (world s)\<lparr>container := reset (container (world s))\<rparr>\<rparr>)
     = start_iteration exec s"
  by (simp add: start_iteration_def Let_def reset_idem)

text \<open>
  C8, as the code has it.  \<open>reset\<close> sets the working image to the original, the binary,
  gray and canvas buffers to \<open>None\<close>, and leaves the original and the annotations as they
  are.  A pass whose engine does not have the flag \<open>dry_run\<close> starts with it: the pass
  from a state is the pass from that state with its container reset.
\<close>

theorem reset_keeps_annotations_and_starts_pass:
  "image_arr (reset c) = image_copy c \<and> image_copy (reset c) = image_copy c
   \<and> image_bin (reset c) = PNone \<and> image_gray (reset c) = PNone \<and> canvas (reset c) = PNone
   \<and> annotations (reset c) = annotations c
   \<and> (\<not> dry_run (flags s) \<longrightarrow>
        iterate R exec vis fb s
          = iterate R exec vis fb
              (s\<lparr>world := (world s)\<lparr>container := reset (container (world s))\<rparr>\<rparr>))"
  by (simp add: reset_def iterate_def start_iteration_reset [unfolded reset_def])

theorem reset_keeps_annotations_and_starts_pass_witness:
  "\<not> dry_run (flags (example_pype threshold_document))
   \<and> iterate (stub_runtime run_ok) True False True (example_pype threshold_document)
     = iterate (stub_runtime run_ok) True False True
         ((example_pype threshold_document)
            \<lparr>world := (world (example_pype threshold_document))
               \<lparr>container := reset (container (world (example_pype threshold_document)))\<rparr>\<rparr>)"
proof -
  have h: "\<not> dry_run (flags (example_pype threshold_document))"
    by (simp add: example_pype_def example_flags_def)
  from reset_keeps_annotations_and_starts_pass
    [of example_container "example_pype threshold_document" "stub_runtime run_ok" True False True]
  show ?thesis using h by blast
qed

text \<open>With \<open>dry_run\<close> the pass does not reset the container: the working image it ends
  with is not the original.\<close>

theorem dry_run_pass_does_not_reset:
  "image_arr (container (world (snd (iterate (stub_runtime run_ok) True False True
      dry_run_pype)))) = PStr ''blurred''
   \<and> image_copy (container (world (snd (iterate (stub_runtime run_ok) True False True
      dry_run_pype)))) = PStr ''image''"
  by (simp add: iterate_def start_iteration_def dry_run_pype_def example_pype_def
      example_flags_def example_container_def Container_init_def finish_iteration_def
      config_eq_def Let_def)

section \<open>The threshold scenario\<close>

lemma threshold_call_raises:
  "utils_run core
     (run_call ''threshold'' (set_passive fb [(PStr ''method'', PStr ''otsu'')]) []
        fresh_counter) w
   = (Some (TypeError ''run() got an unexpected keyword argument fun_kwargs''), w)"
  by (simp add: utils_run_def Container_run_call_def run_call_def run_params_def)

lemma threshold_loop:
  "steps_loop (utils_runtime core gui) True fb 0 threshold_document
     (start_iteration True (example_pype threshold_document))
   = Next ((start_iteration True (example_pype threshold_document))
       \<lparr>config_parsed_flattened := [(''segmentation'', [''threshold''])],
        log := [TypeError ''run() got an unexpected keyword argument fun_kwargs''],
        stdout := [PNewIteration, PStep ''segmentation'', PMethod ''threshold'',
          PError (''segmentation.threshold: TypeError - ''
                  @ ''run() got an unexpected keyword argument fun_kwargs'')]\<rparr>)"
  by (simp add: threshold_document_def start_iteration_def example_pype_def
      example_flags_def example_container_def Container_init_def reset_def do_step_def
      do_method_def check_method_def utils_runtime_def example_modules_def
      annotation_params_def annotation_block_def py_dict_def default_type_def
      default_id_def default_edit_def annotation_functions_def execute_method_def
      invoke_method_def
      threshold_call_raises TypeError_def Let_def)

text \<open>
  C9.  The document \<open>{segmentation: [{threshold: {method: otsu}}]}\<close>, first pass of a
  fresh session on the container of utils.py, with any operations and any display.  The
  call of \<open>_iterate\<close> passes the keywords \<open>fun_kwargs\<close>, \<open>annotation_kwargs\<close> and
  \<open>annotation_counter\<close>, which \<open>Container.run\<close> does not have: the call raises
  \<open>TypeError\<close> before the body of \<open>run\<close>, the engine logs it, and the binary buffer stays
  \<open>None\<close>.  The document is not rewritten.
\<close>

theorem threshold_scenario_logs_type_error:
  "log (snd (iterate (utils_runtime core gui) True vis fb (example_pype threshold_document)))
     = [TypeError ''run() got an unexpected keyword argument fun_kwargs'']
   \<and> image_bin (container (world (snd (iterate (utils_runtime core gui) True vis fb
         (example_pype threshold_document))))) = PNone
   \<and> written (snd (iterate (utils_runtime core gui) True vis fb
         (example_pype threshold_document))) = []"
proof -
  have cfg: "config (start_iteration True (example_pype threshold_document))
             = threshold_document"
    by (simp add: start_iteration_def example_pype_def Let_def)
  have eq: "config_eq threshold_document threshold_document"
    by (simp add: config_eq_def threshold_document_def)
  have st: "start_iteration True (example_pype threshold_document)
            = (example_pype threshold_document)
                \<lparr>stdout := [PNewIteration],
                 world := \<lparr>container = reset example_container, pype_restart = False,
                           last_print_msg = [], run_defaults = []\<rparr>,
                 annotation_counter := fresh_counter,
                 config_updated := threshold_document\<rparr>"
    by (simp add: start_iteration_def example_pype_def example_flags_def Let_def)
  have it: "iterate (utils_runtime core gui) True vis fb (example_pype threshold_document)
            = finish_iteration (utils_runtime core gui) True vis fb
                ((start_iteration True (example_pype threshold_document))
       \<lparr>config_parsed_flattened := [(''segmentation'', [''threshold''])],
        log := [TypeError ''run() got an unexpected keyword argument fun_kwargs''],
        stdout := [PNewIteration, PStep ''segmentation'', PMethod ''threshold'',
          PError (''segmentation.threshold: TypeError - ''
                  @ ''run() got an unexpected keyword argument fun_kwargs'')]\<rparr>)"
    by (simp only: iterate_def cfg threshold_loop ctl.case)
  show ?thesis
    unfolding it st
    by (cases "gui PNone")
       (simp_all add: finish_iteration_def eq example_pype_def show_canvas_def
          visualisation_caught_def utils_runtime_def utils_run_def
          Container_run_call_def run_params_def Container_run_def
          reset_def example_container_def Container_init_def Let_def)
qed

end
